theory Spec2Isabelle
  imports Main "HOL-Library.Word"
begin

unbundle bit_operations_syntax

section \<open>The display server as the window manager sees it\<close>

text \<open>
  The repository holds two variants of the same window manager: \<^verbatim>\<open>src/madawm.c\<close>
  (three workspaces, one client list per workspace) and the C file embedded in
  \<^verbatim>\<open>src/README.md\<close> (two workspaces, one client list tagged with workspaces, borders and
  input focus).  Both talk to the X server through Xlib.  A \<^verbatim>\<open>Window\<close> is an XID; the
  Xlib constant \<^verbatim>\<open>None\<close> is the XID 0.
\<close>

type_synonym window = nat
type_synonym Atom = nat

definition None_X :: window where
  "None_X = 0"

record XClassHint =
  res_name :: "string option"
  res_class :: "string option"

record XWindowChanges =
  wc_x :: int
  wc_y :: int
  wc_width :: int
  wc_height :: int
  wc_border_width :: int
  wc_sibling :: window
  wc_stack_mode :: int

record XClientMessageEvent =
  cm_window :: window
  cm_message_type :: Atom
  cm_format :: int
  cm_data0 :: Atom
  cm_data1 :: nat

text \<open>Every Xlib request either variant issues, in the order of issue.\<close>

datatype xreq =
    MoveResizeWindow window int int int int
  | MapRaised window
  | MapWindow window
  | UnmapWindow window
  | RaiseWindow window
  | SetInputFocus window
  | SetWindowBorder window nat
  | SetWindowBorderWidth window int
  | SelectInput window nat
  | KillClient window
  | SendEvent window XClientMessageEvent
  | ConfigureWindow window nat XWindowChanges
  | Flush
  | Sync

text \<open>
  The server state the code reads back or that the claims speak about: the class hints
  and protocol lists of the windows (set by the applications), which windows are mapped,
  which window holds the input focus, the border colours, and the log of requests.
  \<open>class_hint w = None\<close> is \<^verbatim>\<open>XGetClassHint\<close> returning 0.  The two strings of a hint
  are \<^verbatim>\<open>char *\<close> and the code tests them for null, so they are options here; Xlib
  itself allocates both strings whenever the call succeeds, and a part the property does
  not hold arrives as the empty string.
\<close>

record xserver =
  class_hint :: "window \<Rightarrow> XClassHint option"
  protocols :: "window \<Rightarrow> Atom list option"
  mapped :: "window set"
  input_focus :: window
  border :: "window \<Rightarrow> nat option"
  requests :: "xreq list"

text \<open>
  Xlib declares the width and height of \<^verbatim>\<open>XMoveResizeWindow\<close> and the width of
  \<^verbatim>\<open>XSetWindowBorderWidth\<close> as \<^verbatim>\<open>unsigned int\<close>: an \<^verbatim>\<open>int\<close> argument is converted
  modulo \<open>2 ^ 32\<close>, so a negative one arrives as a large positive number.
\<close>

definition c_uint :: "int \<Rightarrow> int" where
  "c_uint v = v mod 2 ^ 32"

definition XMoveResizeWindow :: "window \<Rightarrow> int \<Rightarrow> int \<Rightarrow> int \<Rightarrow> int \<Rightarrow> xserver \<Rightarrow> xserver" where
  "XMoveResizeWindow w x y wd ht X =
     X\<lparr>requests := requests X @ [MoveResizeWindow w x y (c_uint wd) (c_uint ht)]\<rparr>"

definition XMapRaised :: "window \<Rightarrow> xserver \<Rightarrow> xserver" where
  "XMapRaised w X = X\<lparr>mapped := insert w (mapped X), requests := requests X @ [MapRaised w]\<rparr>"

definition XMapWindow :: "window \<Rightarrow> xserver \<Rightarrow> xserver" where
  "XMapWindow w X = X\<lparr>mapped := insert w (mapped X), requests := requests X @ [MapWindow w]\<rparr>"

definition XUnmapWindow :: "window \<Rightarrow> xserver \<Rightarrow> xserver" where
  "XUnmapWindow w X = X\<lparr>mapped := mapped X - {w}, requests := requests X @ [UnmapWindow w]\<rparr>"

definition XRaiseWindow :: "window \<Rightarrow> xserver \<Rightarrow> xserver" where
  "XRaiseWindow w X = X\<lparr>requests := requests X @ [RaiseWindow w]\<rparr>"

definition XSetInputFocus :: "window \<Rightarrow> xserver \<Rightarrow> xserver" where
  "XSetInputFocus w X = X\<lparr>input_focus := w, requests := requests X @ [SetInputFocus w]\<rparr>"

definition XGetInputFocus :: "xserver \<Rightarrow> window" where
  "XGetInputFocus X = input_focus X"

definition XSetWindowBorder :: "window \<Rightarrow> nat \<Rightarrow> xserver \<Rightarrow> xserver" where
  "XSetWindowBorder w colour X =
     X\<lparr>border := (border X)(w \<mapsto> colour), requests := requests X @ [SetWindowBorder w colour]\<rparr>"

definition XSetWindowBorderWidth :: "window \<Rightarrow> int \<Rightarrow> xserver \<Rightarrow> xserver" where
  "XSetWindowBorderWidth w n X = X\<lparr>requests := requests X @ [SetWindowBorderWidth w (c_uint n)]\<rparr>"

definition XSelectInput :: "window \<Rightarrow> nat \<Rightarrow> xserver \<Rightarrow> xserver" where
  "XSelectInput w evmask X = X\<lparr>requests := requests X @ [SelectInput w evmask]\<rparr>"

definition XKillClient :: "window \<Rightarrow> xserver \<Rightarrow> xserver" where
  "XKillClient w X = X\<lparr>requests := requests X @ [KillClient w]\<rparr>"

definition XSendEvent :: "window \<Rightarrow> XClientMessageEvent \<Rightarrow> xserver \<Rightarrow> xserver" where
  "XSendEvent w ev X = X\<lparr>requests := requests X @ [SendEvent w ev]\<rparr>"

definition XConfigureWindow :: "window \<Rightarrow> nat \<Rightarrow> XWindowChanges \<Rightarrow> xserver \<Rightarrow> xserver" where
  "XConfigureWindow w vmask wc X = X\<lparr>requests := requests X @ [ConfigureWindow w vmask wc]\<rparr>"

definition XFlush :: "xserver \<Rightarrow> xserver" where
  "XFlush X = X\<lparr>requests := requests X @ [Flush]\<rparr>"

definition XSync :: "xserver \<Rightarrow> xserver" where
  "XSync X = X\<lparr>requests := requests X @ [Sync]\<rparr>"

definition XGetClassHint :: "xserver \<Rightarrow> window \<Rightarrow> XClassHint option" where
  "XGetClassHint X w = class_hint X w"

definition XGetWMProtocols :: "xserver \<Rightarrow> window \<Rightarrow> Atom list option" where
  "XGetWMProtocols X w = protocols X w"

text \<open>The geometry requests of a log, in order: the rectangles a tiling run asks for.\<close>

fun rectangles :: "xreq list \<Rightarrow> (window \<times> int \<times> int \<times> int \<times> int) list" where
  "rectangles [] = []"
| "rectangles (MoveResizeWindow w x y wd ht # rs) = (w, x, y, wd, ht) # rectangles rs"
| "rectangles (r # rs) = rectangles rs"

subsection \<open>The C library\<close>

text \<open>
  C's \<^verbatim>\<open>/\<close> on \<^verbatim>\<open>int\<close> truncates towards zero.  The \<^verbatim>\<open>int\<close> values of the code
  (screen sizes, client counts, pixel offsets up to the screen width) stay within the
  range of a 32-bit \<^verbatim>\<open>int\<close> when the screen does (\<open>screen_ok\<close> below), so the
  arithmetic on them is that of the integers.  \<^verbatim>\<open>strcasecmp\<close> compares two strings byte
  by byte after folding the ASCII capitals; it returns 0 exactly on a match.
\<close>

definition c_div :: "int \<Rightarrow> int \<Rightarrow> int" where
  "c_div a b = sgn a * sgn b * (\<bar>a\<bar> div \<bar>b\<bar>)"

definition tolower :: "char \<Rightarrow> nat" where
  "tolower c = (if 65 \<le> (of_char c :: nat) \<and> (of_char c :: nat) \<le> 90 then of_char c + 32 else of_char c)"

fun strcasecmp :: "string \<Rightarrow> string \<Rightarrow> int" where
  "strcasecmp [] [] = 0"
| "strcasecmp [] (b # bs) = - int (tolower b)"
| "strcasecmp (a # as) [] = int (tolower a)"
| "strcasecmp (a # as) (b # bs) =
     (if tolower a = tolower b then strcasecmp as bs else int (tolower a) - int (tolower b))"

section \<open>State shared by both variants\<close>

datatype KeySym = XK_Return | XK_b | XK_c | XK_h | XK_l | XK_q | XK_1 | XK_2 | XK_3 | XK_other

record XConfigureRequestEvent =
  cr_window :: window
  cr_x :: int
  cr_y :: int
  cr_width :: int
  cr_height :: int
  cr_border_width :: int
  cr_above :: window
  cr_detail :: int
  cr_value_mask :: nat

text \<open>
  The events of the dispatcher's switch.  \<open>UnmapNotify w se\<close> carries the event's
  \<^verbatim>\<open>send_event\<close> flag, \<open>KeyPress st k\<close> the modifier state and the key symbol that
  \<^verbatim>\<open>XLookupKeysym\<close> finds.
\<close>

datatype XEvent =
    MapRequest window
  | UnmapNotify window bool
  | DestroyNotify window
  | ConfigureRequest XConfigureRequestEvent
  | EnterNotify window
  | KeyPress "32 word" KeySym
  | OtherEvent

record wm_globals =
  dpy :: xserver
  root :: window
  screen_w :: int
  screen_h :: int
  cur_ws :: int
  running :: bool
  env_TERMINAL :: "string option"
  spawned :: "string list"

text \<open>The screen sizes that \<^verbatim>\<open>setup\<close> reads are non-negative \<^verbatim>\<open>int\<close> values.\<close>

definition screen_ok :: "'a wm_globals_scheme \<Rightarrow> bool" where
  "screen_ok s = (0 \<le> screen_w s \<and> screen_w s < 2 ^ 31 \<and> 0 \<le> screen_h s \<and> screen_h s < 2 ^ 31)"

text \<open>
  \<^verbatim>\<open>spawn_cmd\<close> forks a shell on the command; the model records the command line.
  A null command is ignored.
\<close>

definition spawn_cmd :: "string option \<Rightarrow> 'a wm_globals_scheme \<Rightarrow> 'a wm_globals_scheme" where
  "spawn_cmd cmd s = (case cmd of None \<Rightarrow> s | Some c \<Rightarrow> s\<lparr>spawned := spawned s @ [c]\<rparr>)"

definition handle_configure_request ::
  "int \<Rightarrow> XConfigureRequestEvent \<Rightarrow> 'a wm_globals_scheme \<Rightarrow> 'a wm_globals_scheme" where
  "handle_configure_request bw ev s =
     s\<lparr>dpy := XConfigureWindow (cr_window ev) (cr_value_mask ev)
         \<lparr>wc_x = cr_x ev, wc_y = cr_y ev, wc_width = cr_width ev, wc_height = cr_height ev,
          wc_border_width = bw, wc_sibling = cr_above ev, wc_stack_mode = cr_detail ev\<rparr> (dpy s)\<rparr>"

section \<open>The variant of \<^verbatim>\<open>src/madawm.c\<close>\<close>

text \<open>
  \<^verbatim>\<open>Client *ws[WORKSPACES]\<close>: an array of three singly linked lists of windows, a list
  of lists here; \<open>ws s ! i\<close> is the list of workspace \<open>i\<close>, head first.
\<close>

definition WORKSPACES :: int where
  "WORKSPACES = 3"

record madawm = wm_globals +
  ws :: "window list list"

definition wf_madawm :: "madawm \<Rightarrow> bool" where
  "wf_madawm s = (int (length (ws s)) = WORKSPACES \<and> 0 \<le> cur_ws s \<and> cur_ws s < WORKSPACES)"

definition allowed_classes :: "string list" where
  "allowed_classes =
    [''XTerm'', ''xterm'', ''Terminal'', ''URxvt'', ''urxvt'', ''Firefox'', ''firefox'', ''kitty'', ''Kitty'']"

definition add_client :: "window \<Rightarrow> madawm \<Rightarrow> madawm" where
  "add_client w s = s\<lparr>ws := (ws s)[nat (cur_ws s) := w # (ws s ! nat (cur_ws s))]\<rparr>"

text \<open>The walk of \<^verbatim>\<open>remove_client_from_ws\<close> along one list: the first node holding \<open>w\<close> is unlinked.\<close>

fun unlink :: "window \<Rightarrow> window list \<Rightarrow> window list" where
  "unlink w [] = []"
| "unlink w (c # cs) = (if c = w then cs else c # unlink w cs)"

definition remove_client_from_ws :: "window \<Rightarrow> int \<Rightarrow> madawm \<Rightarrow> madawm" where
  "remove_client_from_ws w wsidx s = s\<lparr>ws := (ws s)[nat wsidx := unlink w (ws s ! nat wsidx)]\<rparr>"

text \<open>
  \<^verbatim>\<open>allowed_window\<close>: the loop over \<^verbatim>\<open>allowed_classes\<close> runs only when \<^verbatim>\<open>res_class\<close> is
  set, and its condition passes \<^verbatim>\<open>res_name\<close> to \<^verbatim>\<open>strcasecmp\<close> unchecked whenever the
  class did not match the entry: a null \<^verbatim>\<open>res_name\<close> is dereferenced there.
\<close>

datatype error = NullDereference

fun allowed_loop :: "string \<Rightarrow> string option \<Rightarrow> string list \<Rightarrow> error + bool" where
  "allowed_loop cls nm [] = Inr False"
| "allowed_loop cls nm (p # ps) =
     (if strcasecmp cls p = 0 then Inr True
      else (case nm of
              None \<Rightarrow> Inl NullDereference
            | Some n \<Rightarrow> if strcasecmp n p = 0 then Inr True else allowed_loop cls nm ps))"

definition allowed_window :: "window \<Rightarrow> madawm \<Rightarrow> error + bool" where
  "allowed_window w s =
     (case XGetClassHint (dpy s) w of
        None \<Rightarrow> Inr False
      | Some ch \<Rightarrow>
          (case res_class ch of
             None \<Rightarrow> Inr False
           | Some cls \<Rightarrow> allowed_loop cls (res_name ch) allowed_classes))"

fun arrange_loop :: "window list \<Rightarrow> int \<Rightarrow> int \<Rightarrow> int \<Rightarrow> xserver \<Rightarrow> xserver" where
  "arrange_loop [] i w h X = X"
| "arrange_loop (c # cs) i w h X =
     arrange_loop cs (i + 1) w h (XMapRaised c (XMoveResizeWindow c (i * w) 0 w h X))"

definition arrange :: "madawm \<Rightarrow> madawm" where
  "arrange s =
     (let count = int (length (ws s ! nat (cur_ws s))) in
      if count = 0 then s
      else let w = c_div (screen_w s) count in
        s\<lparr>dpy := XFlush (arrange_loop (ws s ! nat (cur_ws s)) 0 w (screen_h s) (dpy s))\<rparr>)"

definition focus_next :: "madawm \<Rightarrow> madawm" where
  "focus_next s =
     (case ws s ! nat (cur_ws s) of
        [] \<Rightarrow> s
      | first # _ \<Rightarrow> arrange (add_client first (remove_client_from_ws first (cur_ws s) s)))"

definition focus_prev :: "madawm \<Rightarrow> madawm" where
  "focus_prev s =
     (case ws s ! nat (cur_ws s) of
        [] \<Rightarrow> s
      | [c] \<Rightarrow> s
      | cs \<Rightarrow> arrange (s\<lparr>ws := (ws s)[nat (cur_ws s) := last cs # butlast cs]\<rparr>))"

definition change_ws :: "int \<Rightarrow> madawm \<Rightarrow> madawm" where
  "change_ws idx s =
     (if idx < 0 \<or> idx \<ge> WORKSPACES then s
      else arrange (s\<lparr>dpy := fold XUnmapWindow (ws s ! nat (cur_ws s)) (dpy s), cur_ws := idx\<rparr>))"

definition StructureNotifyMask :: nat where
  "StructureNotifyMask = 2 ^ 17"

definition PropertyChangeMask :: nat where
  "PropertyChangeMask = 2 ^ 22"

definition EnterWindowMask :: nat where
  "EnterWindowMask = 2 ^ 4"

definition FocusChangeMask :: nat where
  "FocusChangeMask = 2 ^ 21"

definition handle_maprequest :: "window \<Rightarrow> madawm \<Rightarrow> error + madawm" where
  "handle_maprequest w s =
     (case allowed_window w s of
        Inl e \<Rightarrow> Inl e
      | Inr False \<Rightarrow> Inr (s\<lparr>dpy := XKillClient w (dpy s)\<rparr>)
      | Inr True \<Rightarrow>
          (let s1 = add_client w s;
               s2 = s1\<lparr>dpy := XSelectInput w (StructureNotifyMask OR PropertyChangeMask) (dpy s1)\<rparr>
           in Inr (arrange s2)))"

definition handle_unmap :: "window \<Rightarrow> madawm \<Rightarrow> madawm" where
  "handle_unmap w s = arrange (remove_client_from_ws w (cur_ws s) s)"

definition handle_destroy :: "window \<Rightarrow> madawm \<Rightarrow> madawm" where
  "handle_destroy w s = arrange (remove_client_from_ws w (cur_ws s) s)"

text \<open>
  One turn of the loop of \<^verbatim>\<open>run\<close>.  The key switch does not look at the modifier state;
  the request's own border width is passed through to \<^verbatim>\<open>XConfigureWindow\<close>.
\<close>

definition keypress :: "KeySym \<Rightarrow> madawm \<Rightarrow> madawm" where
  "keypress k s =
     (if k = XK_Return then
        spawn_cmd (Some (case env_TERMINAL s of None \<Rightarrow> ''kitty'' | Some t \<Rightarrow> t)) s
      else if k = XK_b then spawn_cmd (Some ''firefox'') s
      else if k = XK_1 then change_ws 0 s
      else if k = XK_2 then change_ws 1 s
      else if k = XK_3 then change_ws 2 s
      else if k = XK_q then s\<lparr>running := False\<rparr>
      else if k = XK_h then focus_prev s
      else if k = XK_l then focus_next s
      else s)"

fun handle_event :: "XEvent \<Rightarrow> madawm \<Rightarrow> error + madawm" where
  "handle_event (MapRequest w) s = handle_maprequest w s"
| "handle_event (UnmapNotify w se) s = Inr (handle_unmap w s)"
| "handle_event (DestroyNotify w) s = Inr (handle_destroy w s)"
| "handle_event (ConfigureRequest ev) s = Inr (handle_configure_request (cr_border_width ev) ev s)"
| "handle_event (KeyPress st k) s = Inr (keypress k s)"
| "handle_event _ s = Inr s"

fun run :: "XEvent list \<Rightarrow> madawm \<Rightarrow> error + madawm" where
  "run [] s = Inr s"
| "run (ev # evs) s =
     (if running s then
        (case handle_event ev s of Inl e \<Rightarrow> Inl e | Inr s' \<Rightarrow> run evs s')
      else Inr s)"

section \<open>The variant embedded in \<^verbatim>\<open>src/README.md\<close>\<close>

text \<open>
  One linked list \<^verbatim>\<open>clients\<close> for all workspaces, each node tagged with its workspace;
  the order of a workspace is the order of its nodes in that list.
\<close>

definition WORKSPACES_readme :: int where
  "WORKSPACES_readme = 2"

definition BORDER_WIDTH :: int where
  "BORDER_WIDTH = 2"

definition BORDER_FOCUS :: nat where
  "BORDER_FOCUS = 0x4A90D9"

definition BORDER_UNFOCUS :: nat where
  "BORDER_UNFOCUS = 0x333333"

definition CurrentTime :: nat where
  "CurrentTime = 0"

record Client =
  win :: window
  workspace :: int

record readme = wm_globals +
  clients :: "Client list"
  wm_protocols :: Atom
  wm_delete_window :: Atom
  wm_take_focus :: Atom

definition terminal_classes :: "string list" where
  "terminal_classes =
    [''xterm'', ''XTerm'', ''URxvt'', ''urxvt'', ''Terminal'', ''kitty'', ''Kitty'',
     ''Alacritty'', ''alacritty'', ''St'', ''st'']"

definition browser_classes :: "string list" where
  "browser_classes =
    [''firefox'', ''Firefox'', ''Chromium'', ''chromium'', ''Google-chrome'', ''google-chrome'',
     ''Brave-browser'']"

text \<open>The members of a workspace in list order: the registry's read view.\<close>

definition members_of :: "readme \<Rightarrow> int \<Rightarrow> window list" where
  "members_of s k = map win (filter (\<lambda>c. workspace c = k) (clients s))"

fun match_loop :: "string option \<Rightarrow> string option \<Rightarrow> string list \<Rightarrow> bool" where
  "match_loop cls nm [] = False"
| "match_loop cls nm (p # ps) =
     (if (case cls of None \<Rightarrow> False | Some c \<Rightarrow> strcasecmp c p = 0) \<or>
         (case nm of None \<Rightarrow> False | Some n \<Rightarrow> strcasecmp n p = 0)
      then True else match_loop cls nm ps)"

definition match_class :: "window \<Rightarrow> string list \<Rightarrow> readme \<Rightarrow> bool" where
  "match_class w classes s =
     (case XGetClassHint (dpy s) w of
        None \<Rightarrow> False
      | Some ch \<Rightarrow>
          if res_class ch \<noteq> None \<or> res_name ch \<noteq> None
          then match_loop (res_class ch) (res_name ch) classes else False)"

definition get_window_workspace :: "window \<Rightarrow> readme \<Rightarrow> int" where
  "get_window_workspace w s =
     (if match_class w terminal_classes s then 0
      else if match_class w browser_classes s then 1
      else - 1)"

fun find_client :: "window \<Rightarrow> Client list \<Rightarrow> Client option" where
  "find_client w [] = None"
| "find_client w (c # cs) = (if win c = w then Some c else find_client w cs)"

definition add_client_readme :: "window \<Rightarrow> int \<Rightarrow> readme \<Rightarrow> readme" where
  "add_client_readme w wsp s =
     s\<lparr>clients := \<lparr>win = w, workspace = wsp\<rparr> # clients s,
       dpy := XSelectInput w (EnterWindowMask OR FocusChangeMask OR PropertyChangeMask)
                (XSetWindowBorderWidth w BORDER_WIDTH (dpy s))\<rparr>"

fun unlink_client :: "window \<Rightarrow> Client list \<Rightarrow> Client list" where
  "unlink_client w [] = []"
| "unlink_client w (c # cs) = (if win c = w then cs else c # unlink_client w cs)"

definition remove_client :: "window \<Rightarrow> readme \<Rightarrow> readme" where
  "remove_client w s = s\<lparr>clients := unlink_client w (clients s)\<rparr>"

definition set_border :: "window \<Rightarrow> nat \<Rightarrow> xserver \<Rightarrow> xserver" where
  "set_border w colour X = XSetWindowBorder w colour X"

definition supports_protocol :: "window \<Rightarrow> Atom \<Rightarrow> xserver \<Rightarrow> bool" where
  "supports_protocol w protocol X =
     (case XGetWMProtocols X w of None \<Rightarrow> False | Some ps \<Rightarrow> List.member ps protocol)"

fun unfocus_loop :: "Client list \<Rightarrow> int \<Rightarrow> xserver \<Rightarrow> xserver" where
  "unfocus_loop [] cur X = X"
| "unfocus_loop (c # cs) cur X =
     unfocus_loop cs cur (if workspace c = cur then set_border (win c) BORDER_UNFOCUS X else X)"

definition set_focus :: "window \<Rightarrow> readme \<Rightarrow> readme" where
  "set_focus w s =
     (if w = None_X then s\<lparr>dpy := XSetInputFocus (root s) (dpy s)\<rparr>
      else
        let X1 = unfocus_loop (clients s) (cur_ws s) (dpy s);
            X2 = set_border w BORDER_FOCUS X1;
            X3 = XSetInputFocus w X2;
            X4 = XRaiseWindow w X3;
            X5 = (if supports_protocol w (wm_take_focus s) X4
                  then XSendEvent w
                         \<lparr>cm_window = w, cm_message_type = wm_protocols s, cm_format = 32,
                          cm_data0 = wm_take_focus s, cm_data1 = CurrentTime\<rparr> X4
                  else X4)
        in s\<lparr>dpy := X5\<rparr>)"

text \<open>
  The two loops of \<^verbatim>\<open>arrange\<close>: the count of the current workspace's clients, and the
  tiling walk with its column counter \<open>i\<close> and the \<^verbatim>\<open>focused\<close> pointer.  Clients of other
  workspaces are unmapped on the way.  \<open>tile_rect\<close> is the rectangle that reaches the
  server for the client in column \<open>i\<close>: the loop body's \<^verbatim>\<open>int\<close> width and height,
  converted to \<^verbatim>\<open>unsigned int\<close> by the call.
\<close>

fun count_loop :: "Client list \<Rightarrow> int \<Rightarrow> int" where
  "count_loop [] cur = 0"
| "count_loop (c # cs) cur = (if workspace c = cur then 1 else 0) + count_loop cs cur"

definition tile_rect :: "int \<Rightarrow> int \<Rightarrow> int \<Rightarrow> int \<Rightarrow> int \<Rightarrow> window \<Rightarrow> window \<times> int \<times> int \<times> int \<times> int" where
  "tile_rect count tile_w sw sh i win_c =
     (let x = i * tile_w;
          w = (if i = count - 1 then sw - x else tile_w)
      in (win_c, x, 0, c_uint (w - 2 * BORDER_WIDTH), c_uint (sh - 2 * BORDER_WIDTH)))"

fun tile_loop ::
  "Client list \<Rightarrow> int \<Rightarrow> int \<Rightarrow> int \<Rightarrow> int \<Rightarrow> int \<Rightarrow> int \<Rightarrow> Client option \<Rightarrow> xserver
     \<Rightarrow> Client option \<times> xserver" where
  "tile_loop [] cur count tile_w sw sh i focused X = (focused, X)"
| "tile_loop (c # cs) cur count tile_w sw sh i focused X =
     (if workspace c = cur then
        (let x = i * tile_w;
             w = (if i = count - 1 then sw - x else tile_w);
             X1 = XMoveResizeWindow (win c) x 0 (w - 2 * BORDER_WIDTH) (sh - 2 * BORDER_WIDTH) X;
             X2 = XMapWindow (win c) X1
         in tile_loop cs cur count tile_w sw sh (i + 1) (if i = 0 then Some c else focused) X2)
      else tile_loop cs cur count tile_w sw sh i focused (XUnmapWindow (win c) X))"

definition arrange_readme :: "readme \<Rightarrow> readme" where
  "arrange_readme s =
     (let count = count_loop (clients s) (cur_ws s) in
      if count = 0 then set_focus None_X s
      else
        let tile_w = c_div (screen_w s) count;
            (focused, X) = tile_loop (clients s) (cur_ws s) count tile_w (screen_w s) (screen_h s)
                             0 None (dpy s);
            s1 = s\<lparr>dpy := X\<rparr>;
            s2 = (case focused of None \<Rightarrow> s1 | Some c \<Rightarrow> set_focus (win c) s1)
        in s2\<lparr>dpy := XSync (dpy s2)\<rparr>)"

text \<open>
  The walk of \<^verbatim>\<open>focus_next\<close>: \<open>cur\<close> is set at the node holding the focused window, the
  walk stops at the next node of the workspace after it (\<open>next\<close>); it returns
  \<open>(first, next)\<close>.
\<close>

fun focus_next_loop ::
  "window \<Rightarrow> int \<Rightarrow> Client list \<Rightarrow> Client option \<Rightarrow> Client option
     \<Rightarrow> Client option \<times> Client option" where
  "focus_next_loop fw cur_w [] cur first = (first, None)"
| "focus_next_loop fw cur_w (c # cs) cur first =
     (if workspace c \<noteq> cur_w then focus_next_loop fw cur_w cs cur first
      else
        let first' = (case first of None \<Rightarrow> Some c | Some f \<Rightarrow> Some f) in
        if cur \<noteq> None then (first', Some c)
        else focus_next_loop fw cur_w cs (if win c = fw then Some c else cur) first')"

definition focus_next_readme :: "readme \<Rightarrow> readme" where
  "focus_next_readme s =
     (let focused_w = XGetInputFocus (dpy s);
          (first, nxt) = focus_next_loop focused_w (cur_ws s) (clients s) None None
      in case nxt of
           Some n \<Rightarrow> set_focus (win n) s
         | None \<Rightarrow> (case first of Some f \<Rightarrow> set_focus (win f) s | None \<Rightarrow> s))"

text \<open>The walk of \<^verbatim>\<open>focus_prev\<close>; it returns \<open>(prev, last)\<close>.\<close>

fun focus_prev_loop ::
  "window \<Rightarrow> int \<Rightarrow> Client list \<Rightarrow> Client option \<Rightarrow> Client option \<Rightarrow> Client option
     \<Rightarrow> Client option \<times> Client option" where
  "focus_prev_loop fw cur_w [] cur prev lst = (prev, lst)"
| "focus_prev_loop fw cur_w (c # cs) cur prev lst =
     (if workspace c \<noteq> cur_w then focus_prev_loop fw cur_w cs cur prev lst
      else if win c = fw then focus_prev_loop fw cur_w cs (Some c) prev (Some c)
      else if cur = None then focus_prev_loop fw cur_w cs cur (Some c) (Some c)
      else focus_prev_loop fw cur_w cs cur prev (Some c))"

definition focus_prev_readme :: "readme \<Rightarrow> readme" where
  "focus_prev_readme s =
     (let focused_w = XGetInputFocus (dpy s);
          (prev, lst) = focus_prev_loop focused_w (cur_ws s) (clients s) None None None
      in case prev of
           Some p \<Rightarrow> set_focus (win p) s
         | None \<Rightarrow> (case lst of Some l \<Rightarrow> set_focus (win l) s | None \<Rightarrow> s))"

definition change_ws_readme :: "int \<Rightarrow> readme \<Rightarrow> readme" where
  "change_ws_readme wsp s =
     (if wsp < 0 \<or> wsp \<ge> WORKSPACES_readme \<or> wsp = cur_ws s then s
      else arrange_readme (s\<lparr>cur_ws := wsp\<rparr>))"

definition kill_focused :: "readme \<Rightarrow> readme" where
  "kill_focused s =
     (let focused_w = XGetInputFocus (dpy s) in
      if focused_w = None_X \<or> focused_w = root s then s
      else if supports_protocol focused_w (wm_delete_window s) (dpy s) then
        s\<lparr>dpy := XSendEvent focused_w
                 \<lparr>cm_window = focused_w, cm_message_type = wm_protocols s, cm_format = 32,
                  cm_data0 = wm_delete_window s, cm_data1 = CurrentTime\<rparr> (dpy s)\<rparr>
      else s\<lparr>dpy := XKillClient focused_w (dpy s)\<rparr>)"

definition handle_maprequest_readme :: "window \<Rightarrow> readme \<Rightarrow> readme" where
  "handle_maprequest_readme w s =
     (if find_client w (clients s) \<noteq> None then s
      else
        let wsp = get_window_workspace w s in
        if wsp < 0 then s\<lparr>dpy := XKillClient w (dpy s)\<rparr>
        else
          let s1 = add_client_readme w wsp s in
          if wsp \<noteq> cur_ws s1 then change_ws_readme wsp s1 else arrange_readme s1)"

definition handle_unmap_readme :: "window \<Rightarrow> bool \<Rightarrow> readme \<Rightarrow> readme" where
  "handle_unmap_readme w send_event s =
     (if send_event then arrange_readme (remove_client w s) else s)"

definition handle_destroy_readme :: "window \<Rightarrow> readme \<Rightarrow> readme" where
  "handle_destroy_readme w s = arrange_readme (remove_client w s)"

definition handle_enternotify :: "window \<Rightarrow> readme \<Rightarrow> readme" where
  "handle_enternotify w s =
     (case find_client w (clients s) of
        None \<Rightarrow> s
      | Some c \<Rightarrow> if workspace c = cur_ws s then set_focus (win c) s else s)"

definition ShiftMask :: "32 word" where
  "ShiftMask = 1"

definition LockMask :: "32 word" where
  "LockMask = 2"

definition Mod2Mask :: "32 word" where
  "Mod2Mask = 16"

definition Mod4Mask :: "32 word" where
  "Mod4Mask = 64"

definition keypress_readme :: "32 word \<Rightarrow> KeySym \<Rightarrow> readme \<Rightarrow> readme" where
  "keypress_readme st k s =
     (let state = st AND NOT (LockMask OR Mod2Mask) in
      if state = Mod4Mask then
        (if k = XK_Return then
           spawn_cmd (Some (case env_TERMINAL s of None \<Rightarrow> ''kitty'' | Some t \<Rightarrow> t)) s
         else if k = XK_b then spawn_cmd (Some ''firefox'') s
         else if k = XK_1 then change_ws_readme 0 s
         else if k = XK_2 then change_ws_readme 1 s
         else if k = XK_h then focus_prev_readme s
         else if k = XK_l then focus_next_readme s
         else s)
      else if state = (Mod4Mask OR ShiftMask) then
        (if k = XK_c then kill_focused s
         else if k = XK_q then s\<lparr>running := False\<rparr>
         else s)
      else s)"

fun handle_event_readme :: "XEvent \<Rightarrow> readme \<Rightarrow> readme" where
  "handle_event_readme (MapRequest w) s = handle_maprequest_readme w s"
| "handle_event_readme (UnmapNotify w se) s = handle_unmap_readme w se s"
| "handle_event_readme (DestroyNotify w) s = handle_destroy_readme w s"
| "handle_event_readme (ConfigureRequest ev) s = handle_configure_request BORDER_WIDTH ev s"
| "handle_event_readme (EnterNotify w) s = handle_enternotify w s"
| "handle_event_readme (KeyPress st k) s = keypress_readme st k s"
| "handle_event_readme OtherEvent s = s"

fun run_readme :: "XEvent list \<Rightarrow> readme \<Rightarrow> readme" where
  "run_readme [] s = s"
| "run_readme (ev # evs) s = (if running s then run_readme evs (handle_event_readme ev s) else s)"

section \<open>The tiling of the specification\<close>

text \<open>
  The column algorithm in the words of the specification: with \<open>base = floor (W / N)\<close>,
  column \<open>i\<close> starts at \<open>i * base\<close>; its width is \<open>base\<close>, and \<open>W - base * (N - 1)\<close> for
  the last column.  A column is a pair of x-offset and width.
\<close>

definition spec_columns :: "int \<Rightarrow> nat \<Rightarrow> (int \<times> int) list" where
  "spec_columns W N =
     map (\<lambda>i. (int i * (W div int N),
                if i = N - 1 then W - (W div int N) * (int N - 1) else W div int N)) [0..<N]"

text \<open>
  \<open>spans a cols b\<close>: the x-ranges of the columns, in order, are contiguous and disjoint and
  cover exactly the interval from \<open>a\<close> up to, not including, \<open>b\<close>.
\<close>

fun spans :: "int \<Rightarrow> (int \<times> int) list \<Rightarrow> int \<Rightarrow> bool" where
  "spans a [] b = (a = b)"
| "spans a ((x, w) # cols) b = (x = a \<and> 0 \<le> w \<and> spans (x + w) cols b)"

text \<open>
  The columns of a list of requested rectangles: the x-offset and the outer width, which
  is the requested width plus the border of thickness \<open>B\<close> on either side.
\<close>

definition columns_of :: "int \<Rightarrow> (window \<times> int \<times> int \<times> int \<times> int) list \<Rightarrow> (int \<times> int) list" where
  "columns_of B rs = map (\<lambda>(w, x, y, wd, ht). (x, wd + 2 * B)) rs"

section \<open>Concrete sessions\<close>

text \<open>
  A server with eight application windows: 1, 2 and 3 are kitty terminals, 4 is a Firefox
  window, 7 an application outside every list, and 8 a terminal whose \<^verbatim>\<open>WM_CLASS\<close>
  property holds only the instance name, so that its class arrives as the empty string.
  The hints of 5 and 6 carry a null pointer, which the type \<^verbatim>\<open>XClassHint\<close> allows and the
  code tests for, but which a successful \<^verbatim>\<open>XGetClassHint\<close> of Xlib does not deliver.
  Window 2 advertises the take-focus protocol (atom 12).
\<close>

definition X_init :: xserver where
  "X_init =
     \<lparr>class_hint = (\<lambda>w.
          if w = 1 \<or> w = 2 \<or> w = 3 then Some \<lparr>res_name = Some ''kitty'', res_class = Some ''kitty''\<rparr>
          else if w = 4 then Some \<lparr>res_name = Some ''Navigator'', res_class = Some ''firefox''\<rparr>
          else if w = 5 then Some \<lparr>res_name = Some ''kitty'', res_class = None\<rparr>
          else if w = 6 then Some \<lparr>res_name = None, res_class = Some ''Foo''\<rparr>
          else if w = 7 then Some \<lparr>res_name = Some ''foo'', res_class = Some ''Bar''\<rparr>
          else if w = 8 then Some \<lparr>res_name = Some ''kitty'', res_class = Some []\<rparr>
          else None),
      protocols = (\<lambda>w. if w = 2 then Some [12] else None),
      mapped = {},
      input_focus = 100,
      border = Map.empty,
      requests = []\<rparr>"

definition madawm_init :: madawm where
  "madawm_init =
     \<lparr>dpy = X_init, root = 100, screen_w = 1921, screen_h = 1080, cur_ws = 0, running = True,
      env_TERMINAL = None, spawned = [], ws = [[], [], []]\<rparr>"

definition readme_init :: readme where
  "readme_init =
     \<lparr>dpy = X_init, root = 100, screen_w = 1921, screen_h = 1080, cur_ws = 0, running = True,
      env_TERMINAL = None, spawned = [], clients = [],
      wm_protocols = 10, wm_delete_window = 11, wm_take_focus = 12\<rparr>"

text \<open>
  Registries with three terminals on workspace 0 (and a browser on workspace 1 in the
  README variant), and with one terminal on workspace 0.
\<close>

definition ex_m3 :: madawm where
  "ex_m3 = madawm_init\<lparr>ws := [[1, 2, 3], [], []]\<rparr>"

definition ex_r3 :: readme where
  "ex_r3 = readme_init\<lparr>clients :=
     [\<lparr>win = 1, workspace = 0\<rparr>, \<lparr>win = 4, workspace = 1\<rparr>, \<lparr>win = 2, workspace = 0\<rparr>,
      \<lparr>win = 3, workspace = 0\<rparr>]\<rparr>"

definition ex_m :: madawm where
  "ex_m = madawm_init\<lparr>ws := [[1], [], []]\<rparr>"

definition ex_r :: readme where
  "ex_r = readme_init\<lparr>clients := [\<lparr>win = 1, workspace = 0\<rparr>]\<rparr>"

text \<open>
  The focus invariant of the README variant: the input focus is on the first client of
  the current workspace, or on the root window when that workspace is empty.
\<close>

definition focus_at_head :: "readme \<Rightarrow> bool" where
  "focus_at_head s =
     (input_focus (dpy s) = (case members_of s (cur_ws s) of [] \<Rightarrow> root s | w # _ \<Rightarrow> w))"

section \<open>Facts about the requests and the lists\<close>

text \<open>The Xlib calls of the model, for unfolding.\<close>

lemmas xcall_defs =
  XMoveResizeWindow_def XMapRaised_def XMapWindow_def XUnmapWindow_def XRaiseWindow_def
  XSetInputFocus_def XGetInputFocus_def XSetWindowBorder_def XSetWindowBorderWidth_def
  XSelectInput_def XKillClient_def XSendEvent_def XConfigureWindow_def XFlush_def XSync_def
  XGetClassHint_def XGetWMProtocols_def set_border_def

text \<open>The definitions unfolded to run the concrete sessions.\<close>

lemmas eval_defs =
  xcall_defs c_uint_def readme_init_def madawm_init_def X_init_def ex_r_def ex_m_def
  handle_maprequest_readme_def get_window_workspace_def match_class_def
  terminal_classes_def browser_classes_def tolower_def add_client_readme_def arrange_readme_def
  set_focus_def supports_protocol_def c_div_def Let_def keypress_readme_def focus_next_readme_def
  change_ws_readme_def Mod4Mask_def LockMask_def Mod2Mask_def ShiftMask_def members_of_def
  focus_at_head_def None_X_def BORDER_WIDTH_def BORDER_FOCUS_def BORDER_UNFOCUS_def
  WORKSPACES_readme_def CurrentTime_def EnterWindowMask_def FocusChangeMask_def PropertyChangeMask_def
  StructureNotifyMask_def


lemmas eval_madawm_defs =
  xcall_defs c_uint_def madawm_init_def X_init_def ex_m_def ex_m3_def arrange_def c_div_def Let_def
  handle_maprequest_def allowed_window_def allowed_classes_def tolower_def add_client_def
  remove_client_from_ws_def change_ws_def keypress_def focus_next_def WORKSPACES_def
  StructureNotifyMask_def PropertyChangeMask_def

text \<open>Unlinking one node is \<open>remove1\<close>; it keeps the other nodes and their order.\<close>

lemma unlink_remove1: "unlink w cs = remove1 w cs"
  by (induction cs) auto

lemma unlink_absent: "w \<notin> set cs \<Longrightarrow> unlink w cs = cs"
  by (induction cs) auto

lemma unlink_distinct: "distinct cs \<Longrightarrow> w \<notin> set (unlink w cs)"
  by (induction cs) auto

lemma unlink_client_absent: "w \<notin> win ` set cs \<Longrightarrow> unlink_client w cs = cs"
  by (induction cs) auto

lemma unlink_client_distinct:
  "distinct (map win cs) \<Longrightarrow> w \<notin> win ` set (unlink_client w cs)"
  by (induction cs) auto

lemma set_unlink_client_subset: "set (unlink_client w cs) \<subseteq> set cs"
  by (induction cs) auto

lemma distinct_unlink_client: "distinct (map win cs) \<Longrightarrow> distinct (map win (unlink_client w cs))"
proof (induction cs)
  case Nil
  then show ?case by simp
next
  case (Cons c cs)
  have "win c \<notin> win ` set cs \<Longrightarrow> win c \<notin> win ` set (unlink_client w cs)"
    using set_unlink_client_subset [of w cs] by auto
  with Cons show ?case by auto
qed

section \<open>Facts about \<^verbatim>\<open>src/madawm.c\<close>\<close>

lemma wf_madawm_index: "wf_madawm s \<Longrightarrow> nat (cur_ws s) < length (ws s)"
  by (auto simp: wf_madawm_def WORKSPACES_def)

lemma ws_arrange: "ws (arrange s) = ws s"
  by (simp add: arrange_def Let_def)

lemma cur_ws_arrange: "cur_ws (arrange s) = cur_ws s"
  by (simp add: arrange_def Let_def)

lemma arrange_loop_fields:
  "input_focus (arrange_loop cs i w h X) = input_focus X"
  "class_hint (arrange_loop cs i w h X) = class_hint X"
  by (induction cs arbitrary: i X) (simp_all add: xcall_defs)

lemma arrange_input_focus: "input_focus (dpy (arrange m)) = input_focus (dpy m)"
  by (simp add: arrange_def Let_def arrange_loop_fields xcall_defs)

lemma add_after_remove_head:
  "nat (cur_ws s) < length (ws s) \<Longrightarrow> ws s ! nat (cur_ws s) = first # rest \<Longrightarrow>
   add_client first (remove_client_from_ws first (cur_ws s) s) = s"
  by (simp add: add_client_def remove_client_from_ws_def list_update_same_conv)

text \<open>
  C9.  In \<^verbatim>\<open>src/madawm.c\<close>, on a non-empty current workspace \<^verbatim>\<open>focus_next\<close> unlinks the
  head client and \<^verbatim>\<open>add_client\<close> puts it back at the head of the same list: the lists of
  all workspaces and the current workspace are as before, and the whole call does exactly
  what \<^verbatim>\<open>arrange\<close> alone does on the unchanged state, so the tiling is the same.
\<close>

theorem focus_next_identity:
  assumes "wf_madawm s" and "ws s ! nat (cur_ws s) \<noteq> []"
  shows "ws (focus_next s) = ws s \<and> cur_ws (focus_next s) = cur_ws s \<and> focus_next s = arrange s"
proof -
  from assms(2) obtain first rest where hd: "ws s ! nat (cur_ws s) = first # rest"
    by (cases "ws s ! nat (cur_ws s)") auto
  then have "focus_next s = arrange s"
    by (simp add: focus_next_def add_after_remove_head wf_madawm_index [OF assms(1)])
  then show ?thesis
    by (simp add: ws_arrange cur_ws_arrange)
qed

theorem focus_next_identity_witness:
  "wf_madawm ex_m3 \<and> ws ex_m3 ! nat (cur_ws ex_m3) \<noteq> [] \<and>
   ws (focus_next ex_m3) = [[1, 2, 3], [], []] \<and> focus_next ex_m3 = arrange ex_m3"
  using focus_next_identity [of ex_m3]
  by (simp add: wf_madawm_def WORKSPACES_def madawm_init_def ex_m3_def ws_arrange)

lemma ws_change_ws: "ws (change_ws i m) = ws m"
  by (simp add: change_ws_def ws_arrange)

lemma ws_focus_next: "ws (focus_next m) = ws m"
proof (cases "ws m ! nat (cur_ws m)")
  case Nil
  then show ?thesis by (simp add: focus_next_def)
next
  case (Cons first rest)
  show ?thesis
  proof (cases "nat (cur_ws m) < length (ws m)")
    case True
    with Cons show ?thesis by (simp add: focus_next_def add_after_remove_head ws_arrange)
  next
    case False
    with Cons show ?thesis
      by (simp add: focus_next_def ws_arrange add_client_def remove_client_from_ws_def
          list_update_beyond)
  qed
qed

lemma ws_keypress: "k \<noteq> XK_h \<Longrightarrow> ws (keypress k m) = ws m"
  by (simp add: keypress_def spawn_cmd_def ws_change_ws ws_focus_next)

lemma ws_handle_maprequest:
  "handle_maprequest w m = Inr m' \<Longrightarrow> ws m' = ws m \<or> ws m' = ws (add_client w m)"
  by (auto simp: handle_maprequest_def Let_def ws_arrange add_client_def
      split: sum.splits bool.splits)

lemma ws_handle_unmap: "ws (handle_unmap w m) = ws (remove_client_from_ws w (cur_ws m) m)"
  by (simp add: handle_unmap_def ws_arrange)

lemma ws_handle_destroy: "ws (handle_destroy w m) = ws (remove_client_from_ws w (cur_ws m) m)"
  by (simp add: handle_destroy_def ws_arrange)

lemma ws_handle_event:
  assumes "handle_event e m = Inr m'"
  shows "ws m' = ws m \<or> (\<exists>w. ws m' = ws (add_client w m)) \<or>
         (\<exists>w. ws m' = ws (remove_client_from_ws w (cur_ws m) m)) \<or> (\<exists>st. e = KeyPress st XK_h)"
proof (cases e)
  case (MapRequest w)
  with assms ws_handle_maprequest [of w m m'] show ?thesis by auto
next
  case (UnmapNotify w se)
  with assms show ?thesis by (auto simp: ws_handle_unmap)
next
  case (DestroyNotify w)
  with assms show ?thesis by (auto simp: ws_handle_destroy)
next
  case (ConfigureRequest ev)
  with assms show ?thesis by (auto simp: handle_configure_request_def)
next
  case (EnterNotify w)
  with assms show ?thesis by auto
next
  case (KeyPress st k)
  with assms show ?thesis by (cases "k = XK_h") (auto simp: ws_keypress)
next
  case OtherEvent
  with assms show ?thesis by auto
qed


lemma cur_ws_handle_destroy: "cur_ws (handle_destroy w m) = cur_ws m"
  by (simp add: handle_destroy_def cur_ws_arrange remove_client_from_ws_def)

lemma cur_ws_handle_unmap: "cur_ws (handle_unmap w m) = cur_ws m"
  by (simp add: handle_unmap_def cur_ws_arrange remove_client_from_ws_def)


section \<open>Facts about the README variant\<close>

lemma count_loop_length: "count_loop cs cur = int (length (filter (\<lambda>c. workspace c = cur) cs))"
  by (induction cs) auto

lemma unfocus_loop_fields:
  "input_focus (unfocus_loop cs cur X) = input_focus X"
  "mapped (unfocus_loop cs cur X) = mapped X"
  "class_hint (unfocus_loop cs cur X) = class_hint X"
  "protocols (unfocus_loop cs cur X) = protocols X"
  by (induction cs arbitrary: X) (simp_all add: xcall_defs)

lemma set_focus_globals:
  "clients (set_focus w s) = clients s"
  "cur_ws (set_focus w s) = cur_ws s"
  "root (set_focus w s) = root s"
  "running (set_focus w s) = running s"
  "screen_w (set_focus w s) = screen_w s"
  "screen_h (set_focus w s) = screen_h s"
  by (simp_all add: set_focus_def Let_def)

lemma set_focus_input_focus:
  "input_focus (dpy (set_focus w s)) = (if w = None_X then root s else w)"
  by (simp add: set_focus_def Let_def xcall_defs unfocus_loop_fields)

lemma set_focus_mapped: "mapped (dpy (set_focus w s)) = mapped (dpy s)"
  by (simp add: set_focus_def Let_def xcall_defs unfocus_loop_fields)

lemma set_focus_hints:
  "class_hint (dpy (set_focus w s)) = class_hint (dpy s)"
  "protocols (dpy (set_focus w s)) = protocols (dpy s)"
  by (simp_all add: set_focus_def Let_def xcall_defs unfocus_loop_fields)

lemma tile_loop_fields:
  "input_focus (snd (tile_loop cs cur count tw sw sh i f X)) = input_focus X"
  "class_hint (snd (tile_loop cs cur count tw sw sh i f X)) = class_hint X"
  "protocols (snd (tile_loop cs cur count tw sw sh i f X)) = protocols X"
  by (induction cs arbitrary: i f X) (simp_all add: xcall_defs Let_def)

lemma tile_loop_focused_pos:
  "0 < i \<Longrightarrow> fst (tile_loop cs cur count tw sw sh i f X) = f"
  by (induction cs arbitrary: i f X) (simp_all add: Let_def)

lemma tile_loop_focused:
  "fst (tile_loop cs cur count tw sw sh 0 f X) =
     (case filter (\<lambda>c. workspace c = cur) cs of [] \<Rightarrow> f | c # _ \<Rightarrow> Some c)"
  by (induction cs arbitrary: f X) (simp_all add: Let_def tile_loop_focused_pos)

lemma arrange_readme_globals:
  "clients (arrange_readme s) = clients s"
  "cur_ws (arrange_readme s) = cur_ws s"
  "root (arrange_readme s) = root s"
  "running (arrange_readme s) = running s"
  by (simp_all add: arrange_readme_def Let_def set_focus_globals split: prod.splits option.splits)

lemma arrange_readme_hints:
  "class_hint (dpy (arrange_readme s)) = class_hint (dpy s)"
  by (auto simp add: arrange_readme_def Let_def set_focus_hints xcall_defs split: prod.splits option.splits)
     (metis snd_conv tile_loop_fields(2))+

lemma arrange_readme_focus:
  "input_focus (dpy (arrange_readme s)) =
     (case members_of s (cur_ws s) of
        [] \<Rightarrow> root s
      | w # _ \<Rightarrow> if w = None_X then root s else w)"
proof (cases "filter (\<lambda>c. workspace c = cur_ws s) (clients s)")
  case Nil
  then show ?thesis
    by (simp add: arrange_readme_def members_of_def count_loop_length set_focus_input_focus)
next
  case (Cons c cs)
  obtain f X where tl: "tile_loop (clients s) (cur_ws s) (count_loop (clients s) (cur_ws s))
      (c_div (screen_w s) (count_loop (clients s) (cur_ws s))) (screen_w s) (screen_h s) 0 None (dpy s) = (f, X)"
    by (cases "tile_loop (clients s) (cur_ws s) (count_loop (clients s) (cur_ws s))
      (c_div (screen_w s) (count_loop (clients s) (cur_ws s))) (screen_w s) (screen_h s) 0 None (dpy s)") auto
  have "f = Some c"
    using tile_loop_focused [of "clients s" "cur_ws s" _ _ _ _ None "dpy s"] tl Cons
    by (metis fst_conv list.simps(5))
  then show ?thesis
    using Cons tl
    by (simp add: arrange_readme_def members_of_def count_loop_length set_focus_input_focus xcall_defs Let_def)
qed

lemma find_client_None: "find_client w cs = None \<longleftrightarrow> w \<notin> win ` set cs"
  by (induction cs) auto

lemma find_client_Some: "find_client w cs = Some c \<Longrightarrow> c \<in> set cs \<and> win c = w"
  by (induction cs) (auto split: if_splits)

lemma clients_add_client_readme: "clients (add_client_readme w k s) = \<lparr>win = w, workspace = k\<rparr> # clients s"
  by (simp add: add_client_readme_def)

lemma cur_ws_add_client_readme: "cur_ws (add_client_readme w k s) = cur_ws s"
  by (simp add: add_client_readme_def)

lemma clients_change_ws_readme: "clients (change_ws_readme k s) = clients s"
  by (simp add: change_ws_readme_def arrange_readme_globals)

lemma clients_remove_client: "clients (remove_client w s) = unlink_client w (clients s)"
  by (simp add: remove_client_def)

lemma clients_focus_next_readme: "clients (focus_next_readme s) = clients s"
  by (simp add: focus_next_readme_def Let_def set_focus_globals split: prod.splits option.splits)

lemma clients_focus_prev_readme: "clients (focus_prev_readme s) = clients s"
  by (simp add: focus_prev_readme_def Let_def set_focus_globals split: prod.splits option.splits)

lemma clients_kill_focused: "clients (kill_focused s) = clients s"
  by (simp add: kill_focused_def Let_def)

lemma clients_handle_enternotify: "clients (handle_enternotify w s) = clients s"
  by (simp add: handle_enternotify_def set_focus_globals split: option.splits)

lemma clients_keypress_readme: "clients (keypress_readme st k s) = clients s"
  by (simp add: keypress_readme_def Let_def spawn_cmd_def clients_change_ws_readme
      clients_focus_next_readme clients_focus_prev_readme clients_kill_focused)

lemma clients_handle_maprequest_readme:
  "clients (handle_maprequest_readme w s) =
     (if find_client w (clients s) = None \<and> 0 \<le> get_window_workspace w s
      then \<lparr>win = w, workspace = get_window_workspace w s\<rparr> # clients s else clients s)"
  by (simp add: handle_maprequest_readme_def Let_def clients_change_ws_readme arrange_readme_globals
      clients_add_client_readme)

lemma clients_handle_destroy_readme: "clients (handle_destroy_readme w s) = unlink_client w (clients s)"
  by (simp add: handle_destroy_readme_def arrange_readme_globals clients_remove_client)

lemma clients_handle_unmap_readme:
  "clients (handle_unmap_readme w se s) = (if se then unlink_client w (clients s) else clients s)"
  by (simp add: handle_unmap_readme_def arrange_readme_globals clients_remove_client)

text \<open>Every event leaves the client list alone, prepends one client or unlinks one.\<close>

lemma clients_handle_event_readme:
  "clients (handle_event_readme e s) = clients s \<or>
   (\<exists>w k. e = MapRequest w \<and> find_client w (clients s) = None \<and>
      clients (handle_event_readme e s) = \<lparr>win = w, workspace = k\<rparr> # clients s) \<or>
   (\<exists>w. clients (handle_event_readme e s) = unlink_client w (clients s))"
  by (cases e)
     (auto simp: clients_handle_maprequest_readme clients_handle_destroy_readme
        clients_handle_unmap_readme clients_handle_enternotify clients_keypress_readme
        handle_configure_request_def)

lemma distinct_handle_event_readme:
  assumes "distinct (map win (clients s))"
  shows "distinct (map win (clients (handle_event_readme e s)))"
  using clients_handle_event_readme [of e s] assms
  by (auto simp: find_client_None distinct_unlink_client)

lemma distinct_run_readme:
  "distinct (map win (clients s)) \<Longrightarrow> distinct (map win (clients (run_readme evs s)))"
  by (induction evs arbitrary: s) (simp_all add: distinct_handle_event_readme)

section \<open>The registry\<close>

lemma members_of_add_client_readme:
  "members_of (add_client_readme w k s) j = (if j = k then w # members_of s j else members_of s j)"
  by (simp add: members_of_def clients_add_client_readme)

text \<open>
  C3, as amended.  \<^verbatim>\<open>add_client\<close> inserts the new handle at the head of the sequence of
  its workspace (the current workspace in \<^verbatim>\<open>src/madawm.c\<close>, the given one in the README
  variant), in front of the clients inserted before, and no other workspace changes.
  Every event handler leaves the registry as it is, prepends one client or unlinks one
  client; the one exception is the focus-cycle key of \<^verbatim>\<open>src/madawm.c\<close> that runs
  \<^verbatim>\<open>focus_prev\<close>.
\<close>

theorem add_client_prepends:
  "(wf_madawm m \<longrightarrow>
      ws (add_client w m) ! nat (cur_ws m) = w # ws m ! nat (cur_ws m) \<and>
      (\<forall>i. i \<noteq> nat (cur_ws m) \<longrightarrow> ws (add_client w m) ! i = ws m ! i)) \<and>
   members_of (add_client_readme w k s) k = w # members_of s k \<and>
   (\<forall>j. j \<noteq> k \<longrightarrow> members_of (add_client_readme w k s) j = members_of s j) \<and>
   (clients (handle_event_readme e s) = clients s \<or>
    (\<exists>w' k'. clients (handle_event_readme e s) = \<lparr>win = w', workspace = k'\<rparr> # clients s) \<or>
    (\<exists>w'. clients (handle_event_readme e s) = unlink_client w' (clients s))) \<and>
   (handle_event e m = Inr m' \<longrightarrow>
      ws m' = ws m \<or> (\<exists>w'. ws m' = ws (add_client w' m)) \<or>
      (\<exists>w'. ws m' = ws (remove_client_from_ws w' (cur_ws m) m)) \<or> (\<exists>st. e = KeyPress st XK_h))"
proof -
  have a: "wf_madawm m \<longrightarrow>
      ws (add_client w m) ! nat (cur_ws m) = w # ws m ! nat (cur_ws m) \<and>
      (\<forall>i. i \<noteq> nat (cur_ws m) \<longrightarrow> ws (add_client w m) ! i = ws m ! i)"
    by (auto simp: add_client_def dest: wf_madawm_index)
  have b: "clients (handle_event_readme e s) = clients s \<or>
    (\<exists>w' k'. clients (handle_event_readme e s) = \<lparr>win = w', workspace = k'\<rparr> # clients s) \<or>
    (\<exists>w'. clients (handle_event_readme e s) = unlink_client w' (clients s))"
    using clients_handle_event_readme [of e s] by blast
  show ?thesis
    using a b ws_handle_event [of e m m'] by (simp add: members_of_add_client_readme)
qed

theorem add_client_prepends_witness:
  "wf_madawm ex_m \<and> ws (add_client 2 ex_m) ! 0 = [2, 1] \<and> ws (add_client 2 ex_m) ! 1 = [] \<and>
   members_of (add_client_readme 2 0 ex_r) 0 = [2, 1] \<and>
   members_of (add_client_readme 2 0 ex_r) 1 = [] \<and>
   handle_event (KeyPress 64 XK_2) ex_m = Inr (change_ws 1 ex_m) \<and>
   ws (change_ws 1 ex_m) = [[1], [], []]"
  using add_client_prepends [of ex_m 2 0 ex_r "KeyPress 64 XK_2" "change_ws 1 ex_m"]
  by (simp add: wf_madawm_def WORKSPACES_def ex_m_def ex_r_def madawm_init_def readme_init_def
      members_of_def keypress_def ws_change_ws)

text \<open>
  C3 as stated fails: the new handle does not go to the tail.  With window 1 registered,
  inserting window 2 gives the order 2, 1 in both variants.
\<close>

theorem add_client_appends_counterexample:
  "ws (add_client 2 ex_m) ! 0 \<noteq> ws ex_m ! 0 @ [2] \<and>
   members_of (add_client_readme 2 0 ex_r) 0 \<noteq> members_of ex_r 0 @ [2]"
  by (simp add: add_client_def add_client_readme_def members_of_def ex_m_def ex_r_def
      madawm_init_def readme_init_def)

text \<open>
  Removing a handle that the registry does not hold changes nothing, in both variants
  (\<^verbatim>\<open>remove_client\<close>, \<^verbatim>\<open>remove_client_from_ws\<close>).  On a registry that holds every handle
  at most once, a destroy or unmap notification delivered a second time leaves the
  registry as the first delivery left it; in the README variant that is every registry
  reached by a run from the empty one.
\<close>

lemma remove_absent_noop_idempotent:
  "(w \<notin> win ` set (clients s) \<longrightarrow> remove_client w s = s) \<and>
   (w \<notin> set (ws m ! nat i) \<longrightarrow> remove_client_from_ws w i m = m) \<and>
   (distinct (map win (clients s)) \<longrightarrow>
      w \<notin> win ` set (clients (handle_destroy_readme w s)) \<and>
      clients (handle_destroy_readme w (handle_destroy_readme w s)) = clients (handle_destroy_readme w s) \<and>
      clients (handle_unmap_readme w se (handle_unmap_readme w se s)) = clients (handle_unmap_readme w se s)) \<and>
   (clients s0 = [] \<longrightarrow>
      clients (handle_destroy_readme w (handle_destroy_readme w (run_readme evs s0))) =
        clients (handle_destroy_readme w (run_readme evs s0)) \<and>
      clients (handle_unmap_readme w se (handle_unmap_readme w se (run_readme evs s0))) =
        clients (handle_unmap_readme w se (run_readme evs s0))) \<and>
   (wf_madawm m \<and> distinct (ws m ! nat (cur_ws m)) \<longrightarrow>
      ws (handle_destroy w (handle_destroy w m)) = ws (handle_destroy w m) \<and>
      ws (handle_unmap w (handle_unmap w m)) = ws (handle_unmap w m))"
proof -
  have a: "w \<notin> win ` set (clients s) \<longrightarrow> remove_client w s = s"
    by (simp add: remove_client_def unlink_client_absent)
  have b: "w \<notin> set (ws m ! nat i) \<longrightarrow> remove_client_from_ws w i m = m"
    by (simp add: remove_client_from_ws_def unlink_absent)
  have c: "distinct (map win (clients t)) \<longrightarrow>
      w \<notin> win ` set (clients (handle_destroy_readme w t)) \<and>
      clients (handle_destroy_readme w (handle_destroy_readme w t)) = clients (handle_destroy_readme w t) \<and>
      clients (handle_unmap_readme w se (handle_unmap_readme w se t)) = clients (handle_unmap_readme w se t)"
    for t
    using unlink_client_distinct [of "clients t" w]
    by (simp add: clients_handle_destroy_readme clients_handle_unmap_readme unlink_client_absent)
  have r: "clients s0 = [] \<longrightarrow> distinct (map win (clients (run_readme evs s0)))"
    by (simp add: distinct_run_readme)
  have d: "wf_madawm m \<and> distinct (ws m ! nat (cur_ws m)) \<longrightarrow>
      ws (handle_destroy w (handle_destroy w m)) = ws (handle_destroy w m) \<and>
      ws (handle_unmap w (handle_unmap w m)) = ws (handle_unmap w m)"
  proof
    assume h: "wf_madawm m \<and> distinct (ws m ! nat (cur_ws m))"
    then have i: "nat (cur_ws m) < length (ws m)" by (simp add: wf_madawm_index)
    from h have "unlink w (unlink w (ws m ! nat (cur_ws m))) = unlink w (ws m ! nat (cur_ws m))"
      by (simp add: unlink_absent unlink_distinct)
    with i show "ws (handle_destroy w (handle_destroy w m)) = ws (handle_destroy w m) \<and>
      ws (handle_unmap w (handle_unmap w m)) = ws (handle_unmap w m)"
      by (simp add: ws_handle_destroy ws_handle_unmap remove_client_from_ws_def
          cur_ws_handle_destroy cur_ws_handle_unmap)
  qed
  from a b c [of s] c [of "run_readme evs s0"] r d show ?thesis by blast
qed


text \<open>
  C8.  In \<^verbatim>\<open>src/madawm.c\<close> two map requests for terminal 1 put it on the list of
  workspace 0 twice, and then a notification delivered twice is not absorbed: the first
  \<^verbatim>\<open>DestroyNotify\<close> (or \<^verbatim>\<open>UnmapNotify\<close>) leaves one node of window 1 in the registry and
  the second one changes the registry again.
\<close>

theorem duplicate_notification_after_duplicate_map_madawm:
  "(case run [MapRequest 1, MapRequest 1, DestroyNotify 1] madawm_init of
      Inl e \<Rightarrow> None | Inr s \<Rightarrow> Some (ws s)) = Some [[1], [], []] \<and>
   (case run [MapRequest 1, MapRequest 1, DestroyNotify 1, DestroyNotify 1] madawm_init of
      Inl e \<Rightarrow> None | Inr s \<Rightarrow> Some (ws s)) = Some [[], [], []] \<and>
   (case run [MapRequest 1, MapRequest 1, UnmapNotify 1 False] madawm_init of
      Inl e \<Rightarrow> None | Inr s \<Rightarrow> Some (ws s)) = Some [[1], [], []] \<and>
   (case run [MapRequest 1, MapRequest 1, UnmapNotify 1 False, UnmapNotify 1 False] madawm_init of
      Inl e \<Rightarrow> None | Inr s \<Rightarrow> Some (ws s)) = Some [[], [], []]"
  by (simp add: eval_madawm_defs handle_destroy_def handle_unmap_def)

section \<open>Focus in the README variant\<close>

lemma members_of_arrange_readme: "members_of (arrange_readme s) k = members_of s k"
  by (simp add: members_of_def arrange_readme_globals)

lemma focus_at_head_arrange_readme:
  assumes "None_X \<notin> win ` set (clients s)"
  shows "focus_at_head (arrange_readme s)"
proof (cases "members_of s (cur_ws s)")
  case Nil
  then show ?thesis
    by (simp add: focus_at_head_def arrange_readme_focus members_of_arrange_readme arrange_readme_globals)
next
  case (Cons w rest)
  then have "w \<in> win ` set (clients s)"
    by (metis (no_types, lifting) filter_is_subset image_mono list.set_intros(1) list.set_map members_of_def subsetD)
  with assms have "w \<noteq> None_X" by blast
  with Cons show ?thesis
    by (simp add: focus_at_head_def arrange_readme_focus members_of_arrange_readme arrange_readme_globals)
qed

lemma get_window_workspace_range:
  "get_window_workspace w s = 0 \<or> get_window_workspace w s = 1 \<or> get_window_workspace w s = - 1"
  by (simp add: get_window_workspace_def)

lemma change_ws_readme_switch:
  "0 \<le> k \<Longrightarrow> k < WORKSPACES_readme \<Longrightarrow> k \<noteq> cur_ws s \<Longrightarrow>
   change_ws_readme k s = arrange_readme (s\<lparr>cur_ws := k\<rparr>)"
  by (simp add: change_ws_readme_def)

lemma change_ws_readme_noop:
  "k < 0 \<or> WORKSPACES_readme \<le> k \<or> k = cur_ws s \<Longrightarrow> change_ws_readme k s = s"
  by (auto simp: change_ws_readme_def)

lemma handle_maprequest_readme_accept:
  assumes "find_client w (clients s) = None" and "0 \<le> get_window_workspace w s"
  shows "handle_maprequest_readme w s =
           arrange_readme ((add_client_readme w (get_window_workspace w s) s)\<lparr>cur_ws := get_window_workspace w s\<rparr>)"
proof -
  let ?k = "get_window_workspace w s"
  have rng: "0 \<le> ?k \<and> ?k < WORKSPACES_readme"
    using get_window_workspace_range [of w s] assms(2) by (auto simp: WORKSPACES_readme_def)
  show ?thesis
  proof (cases "?k = cur_ws s")
    case True
    have "(add_client_readme w (cur_ws s) s)\<lparr>cur_ws := cur_ws s\<rparr> = add_client_readme w (cur_ws s) s"
      by (simp add: add_client_readme_def)
    with True assms show ?thesis
      by (simp add: handle_maprequest_readme_def Let_def add_client_readme_def)
  next
    case False
    with assms rng show ?thesis
      by (simp add: handle_maprequest_readme_def Let_def cur_ws_add_client_readme
          change_ws_readme_switch)
  qed
qed

lemma focus_at_head_maprequest:
  assumes "None_X \<notin> win ` set (clients s)" and "w \<noteq> None_X"
    and "find_client w (clients s) = None" and "0 \<le> get_window_workspace w s"
  shows "focus_at_head (handle_maprequest_readme w s) \<and>
         input_focus (dpy (handle_maprequest_readme w s)) = w"
proof -
  let ?k = "get_window_workspace w s"
  let ?s1 = "(add_client_readme w ?k s)\<lparr>cur_ws := ?k\<rparr>"
  have eq: "handle_maprequest_readme w s = arrange_readme ?s1"
    using assms(3,4) by (rule handle_maprequest_readme_accept)
  have cl: "clients ?s1 = \<lparr>win = w, workspace = ?k\<rparr> # clients s"
    by (simp add: clients_add_client_readme)
  have "None_X \<notin> win ` set (clients ?s1)"
    using assms(1,2) by (simp add: cl)
  then have fh: "focus_at_head (arrange_readme ?s1)"
    by (rule focus_at_head_arrange_readme)
  have "members_of ?s1 (cur_ws ?s1) = w # members_of s ?k"
    by (simp add: members_of_def cl)
  then have "input_focus (dpy (arrange_readme ?s1)) = w"
    using fh by (simp add: focus_at_head_def members_of_arrange_readme arrange_readme_globals)
  with fh eq show ?thesis by simp
qed

lemma members_of_remove_client_notin:
  "distinct (map win (clients s)) \<Longrightarrow> w \<notin> win ` set (clients (remove_client w s))"
  by (simp add: clients_remove_client unlink_client_distinct)

lemma None_X_unlink: "None_X \<notin> win ` set cs \<Longrightarrow> None_X \<notin> win ` set (unlink_client w cs)"
  using set_unlink_client_subset [of w cs] by auto

lemma focus_at_head_destroy:
  assumes "None_X \<notin> win ` set (clients s)"
  shows "focus_at_head (handle_destroy_readme w s)"
  unfolding handle_destroy_readme_def
  by (rule focus_at_head_arrange_readme) (simp add: clients_remove_client None_X_unlink assms)

lemma focus_at_head_in_registry:
  assumes "focus_at_head s"
  shows "input_focus (dpy s) = root s \<or> input_focus (dpy s) \<in> win ` set (clients s)"
proof (cases "members_of s (cur_ws s)")
  case Nil
  with assms show ?thesis by (simp add: focus_at_head_def)
next
  case (Cons w rest)
  then have "w \<in> set (members_of s (cur_ws s))" by simp
  then have "w \<in> win ` set (clients s)" by (auto simp: members_of_def)
  with assms Cons show ?thesis by (simp add: focus_at_head_def)
qed


text \<open>
  C10, as amended.  In the README variant, with no client carrying the null XID, every
  run of \<^verbatim>\<open>arrange\<close> leaves the input focus on the first client of the current workspace
  in list order, and on the root window when that workspace has no client.  So the focus
  is at the head after every event that reaches \<^verbatim>\<open>arrange\<close>: a destroy notification, an
  unmap notification with \<^verbatim>\<open>send_event\<close> set, a switch to another workspace in range, and
  an accepted map request, after which the focus is on the new window itself.  The events
  the handlers ignore leave the focus where it was: a map request for a registered or a
  rejected window, an unmap notification without \<^verbatim>\<open>send_event\<close>, and a switch to the
  current or to an out-of-range workspace.
\<close>

theorem arrange_readme_focuses_head:
  "(None_X \<notin> win ` set (clients s) \<longrightarrow>
     focus_at_head (arrange_readme s) \<and>
     (members_of s (cur_ws s) = [] \<longrightarrow> input_focus (dpy (arrange_readme s)) = root s) \<and>
     focus_at_head (handle_destroy_readme w s) \<and>
     focus_at_head (handle_unmap_readme w True s) \<and>
     (0 \<le> k \<and> k < WORKSPACES_readme \<and> k \<noteq> cur_ws s \<longrightarrow> focus_at_head (change_ws_readme k s)) \<and>
     (w \<noteq> None_X \<and> find_client w (clients s) = None \<and> 0 \<le> get_window_workspace w s \<longrightarrow>
        focus_at_head (handle_maprequest_readme w s) \<and>
        input_focus (dpy (handle_maprequest_readme w s)) = w)) \<and>
   (find_client w (clients s) \<noteq> None \<longrightarrow> handle_maprequest_readme w s = s) \<and>
   (find_client w (clients s) = None \<and> get_window_workspace w s < 0 \<longrightarrow>
      input_focus (dpy (handle_maprequest_readme w s)) = input_focus (dpy s)) \<and>
   handle_unmap_readme w False s = s \<and>
   (k < 0 \<or> WORKSPACES_readme \<le> k \<or> k = cur_ws s \<longrightarrow> change_ws_readme k s = s)"
proof -
  have a: "None_X \<notin> win ` set (clients s) \<longrightarrow>
     focus_at_head (arrange_readme s) \<and>
     (members_of s (cur_ws s) = [] \<longrightarrow> input_focus (dpy (arrange_readme s)) = root s) \<and>
     focus_at_head (handle_destroy_readme w s) \<and>
     focus_at_head (handle_unmap_readme w True s) \<and>
     (0 \<le> k \<and> k < WORKSPACES_readme \<and> k \<noteq> cur_ws s \<longrightarrow> focus_at_head (change_ws_readme k s)) \<and>
     (w \<noteq> None_X \<and> find_client w (clients s) = None \<and> 0 \<le> get_window_workspace w s \<longrightarrow>
        focus_at_head (handle_maprequest_readme w s) \<and>
        input_focus (dpy (handle_maprequest_readme w s)) = w)"
  proof
    assume h: "None_X \<notin> win ` set (clients s)"
    have a: "focus_at_head (arrange_readme s)"
      using h by (rule focus_at_head_arrange_readme)
    have b: "members_of s (cur_ws s) = [] \<longrightarrow> input_focus (dpy (arrange_readme s)) = root s"
      by (simp add: arrange_readme_focus)
    have c: "focus_at_head (handle_destroy_readme w s)"
      using h by (rule focus_at_head_destroy)
    have d: "focus_at_head (handle_unmap_readme w True s)"
      using c by (simp add: handle_unmap_readme_def handle_destroy_readme_def)
    have e: "0 \<le> k \<and> k < WORKSPACES_readme \<and> k \<noteq> cur_ws s \<longrightarrow> focus_at_head (change_ws_readme k s)"
      using focus_at_head_arrange_readme [of "s\<lparr>cur_ws := k\<rparr>"] h
      by (simp add: change_ws_readme_switch)
    have f: "w \<noteq> None_X \<and> find_client w (clients s) = None \<and> 0 \<le> get_window_workspace w s \<longrightarrow>
        focus_at_head (handle_maprequest_readme w s) \<and>
        input_focus (dpy (handle_maprequest_readme w s)) = w"
      using focus_at_head_maprequest [of s w] h by blast
    from a b c d e f show "focus_at_head (arrange_readme s) \<and>
     (members_of s (cur_ws s) = [] \<longrightarrow> input_focus (dpy (arrange_readme s)) = root s) \<and>
     focus_at_head (handle_destroy_readme w s) \<and>
     focus_at_head (handle_unmap_readme w True s) \<and>
     (0 \<le> k \<and> k < WORKSPACES_readme \<and> k \<noteq> cur_ws s \<longrightarrow> focus_at_head (change_ws_readme k s)) \<and>
     (w \<noteq> None_X \<and> find_client w (clients s) = None \<and> 0 \<le> get_window_workspace w s \<longrightarrow>
        focus_at_head (handle_maprequest_readme w s) \<and>
        input_focus (dpy (handle_maprequest_readme w s)) = w)"
      by blast
  qed
  have b: "find_client w (clients s) \<noteq> None \<longrightarrow> handle_maprequest_readme w s = s"
    by (simp add: handle_maprequest_readme_def)
  have c: "find_client w (clients s) = None \<and> get_window_workspace w s < 0 \<longrightarrow>
      input_focus (dpy (handle_maprequest_readme w s)) = input_focus (dpy s)"
    by (simp add: handle_maprequest_readme_def XKillClient_def)
  have d: "handle_unmap_readme w False s = s"
    by (simp add: handle_unmap_readme_def)
  have e: "k < 0 \<or> WORKSPACES_readme \<le> k \<or> k = cur_ws s \<longrightarrow> change_ws_readme k s = s"
    by (auto simp: change_ws_readme_def)
  from a b c d e show ?thesis by blast
qed

theorem arrange_readme_focuses_head_witness:
  "None_X \<notin> win ` set (clients ex_r) \<and>
   input_focus (dpy (arrange_readme ex_r)) = 1 \<and>
   members_of (handle_destroy_readme 1 ex_r) 0 = [] \<and>
   input_focus (dpy (handle_destroy_readme 1 ex_r)) = 100 \<and>
   (0::int) \<le> 1 \<and> 1 < WORKSPACES_readme \<and> 1 \<noteq> cur_ws ex_r \<and>
   input_focus (dpy (change_ws_readme 1 ex_r)) = 100 \<and>
   (2::nat) \<noteq> None_X \<and> find_client 2 (clients ex_r) = None \<and> 0 \<le> get_window_workspace 2 ex_r \<and>
   input_focus (dpy (handle_maprequest_readme 2 ex_r)) = 2 \<and>
   find_client 1 (clients ex_r) \<noteq> None \<and> handle_maprequest_readme 1 ex_r = ex_r \<and>
   find_client 7 (clients ex_r) = None \<and> get_window_workspace 7 ex_r < 0 \<and>
   input_focus (dpy (handle_maprequest_readme 7 ex_r)) = 100 \<and>
   change_ws_readme 0 ex_r = ex_r"
proof -
  have h: "None_X \<notin> win ` set (clients ex_r)"
    by (simp add: ex_r_def readme_init_def None_X_def)
  have g: "get_window_workspace 2 ex_r = 0" "get_window_workspace 7 ex_r = - 1"
    by (simp_all add: get_window_workspace_def match_class_def ex_r_def readme_init_def X_init_def
        XGetClassHint_def terminal_classes_def browser_classes_def tolower_def)
  have r: "(0::int) \<le> 1 \<and> 1 < WORKSPACES_readme \<and> 1 \<noteq> cur_ws ex_r"
    by (simp add: WORKSPACES_readme_def ex_r_def readme_init_def)
  have f: "(2::nat) \<noteq> None_X \<and> find_client 2 (clients ex_r) = None"
    "find_client 1 (clients ex_r) \<noteq> None" "find_client 7 (clients ex_r) = None"
    by (simp_all add: None_X_def ex_r_def readme_init_def)
  have m1: "members_of ex_r (cur_ws ex_r) = [1]" "root ex_r = 100"
    "members_of ex_r 1 = []" "cur_ws ex_r = 0" "input_focus (dpy ex_r) = 100"
    by (simp_all add: members_of_def ex_r_def readme_init_def X_init_def)
  have m2: "members_of (handle_destroy_readme 1 ex_r) 0 = []"
    by (simp add: members_of_def clients_handle_destroy_readme ex_r_def readme_init_def)
  have c: "cur_ws (handle_destroy_readme 1 ex_r) = 0" "root (handle_destroy_readme 1 ex_r) = 100"
    by (simp_all add: handle_destroy_readme_def arrange_readme_globals remove_client_def
        ex_r_def readme_init_def)
  have c2: "cur_ws (change_ws_readme 1 ex_r) = 1" "root (change_ws_readme 1 ex_r) = 100"
    "members_of (change_ws_readme 1 ex_r) 1 = []"
    using r by (simp_all add: change_ws_readme_switch arrange_readme_globals members_of_def
        ex_r_def readme_init_def)
  note t1 = arrange_readme_focuses_head [of ex_r 1 1]
  note t2 = arrange_readme_focuses_head [of ex_r 2 0]
  note t7 = arrange_readme_focuses_head [of ex_r 7 0]
  from t1 h r have p1: "focus_at_head (arrange_readme ex_r)"
    "focus_at_head (handle_destroy_readme 1 ex_r)" "focus_at_head (change_ws_readme 1 ex_r)"
    by blast+
  from t1 f have p2: "handle_maprequest_readme 1 ex_r = ex_r" by blast
  from t2 h f g have p3: "input_focus (dpy (handle_maprequest_readme 2 ex_r)) = 2" by simp
  from t7 f g have p4: "input_focus (dpy (handle_maprequest_readme 7 ex_r)) = input_focus (dpy ex_r)"
    by simp
  from t2 m1 have p5: "change_ws_readme 0 ex_r = ex_r" by simp
  from p1 have q: "input_focus (dpy (arrange_readme ex_r)) = 1"
    "input_focus (dpy (handle_destroy_readme 1 ex_r)) = 100"
    "input_focus (dpy (change_ws_readme 1 ex_r)) = 100"
    using m1 m2 c c2
    by (simp_all add: focus_at_head_def members_of_arrange_readme arrange_readme_globals)
  from h g r f m1 m2 p2 p3 p4 p5 q show ?thesis by simp
qed

text \<open>
  C10 as stated fails after a map event that the handler ignores: two terminals are
  mapped, the focus is cycled to the second client, and a duplicate map request for the
  first client returns early, leaving the focus on window 2 while the head is window 1.
\<close>

theorem focus_not_head_after_duplicate_map:
  "members_of (run_readme [MapRequest 2, MapRequest 1, KeyPress Mod4Mask XK_l, MapRequest 1] readme_init) 
      (cur_ws (run_readme [MapRequest 2, MapRequest 1, KeyPress Mod4Mask XK_l, MapRequest 1] readme_init)) = [1, 2] \<and>
   input_focus (dpy (run_readme [MapRequest 2, MapRequest 1, KeyPress Mod4Mask XK_l, MapRequest 1] readme_init)) = 2 \<and>
   \<not> focus_at_head (run_readme [MapRequest 2, MapRequest 1, KeyPress Mod4Mask XK_l, MapRequest 1] readme_init)"
  by (simp add: eval_defs)

section \<open>The tiling\<close>

lemma rectangles_append: "rectangles (xs @ ys) = rectangles xs @ rectangles ys"
  by (induction xs rule: rectangles.induct) simp_all

lemma c_div_nonneg: "0 \<le> a \<Longrightarrow> 0 < b \<Longrightarrow> c_div a b = a div b"
  by (cases "a = 0") (simp_all add: c_div_def)

lemma c_uint_id: "0 \<le> v \<Longrightarrow> v < 2 ^ 31 \<Longrightarrow> c_uint v = v"
  by (simp add: c_uint_def)

lemma arrange_loop_rectangles:
  "rectangles (requests (arrange_loop cs i w h X)) =
     rectangles (requests X) @
     map (\<lambda>(j, c). (c, (i + int j) * w, 0, c_uint w, c_uint h)) (enumerate 0 cs)"
proof (induction cs arbitrary: i X)
  case Nil
  then show ?case by simp
next
  case (Cons c cs)
  have "map (\<lambda>(j, c). (c, (i + 1 + int j) * w, 0, c_uint w, c_uint h)) (enumerate 0 cs) =
        map (\<lambda>(j, c). (c, (i + int j) * w, 0, c_uint w, c_uint h)) (enumerate (Suc 0) cs)"
    by (simp add: enumerate_Suc_eq [of 0] split_def add.assoc add.commute)
  then show ?case
    by (simp add: Cons XMapRaised_def XMoveResizeWindow_def rectangles_append)
qed

lemma arrange_rectangles:
  assumes "ws m ! nat (cur_ws m) \<noteq> []" and "screen_ok m"
  shows "rectangles (requests (dpy (arrange m))) =
     rectangles (requests (dpy m)) @
     map (\<lambda>(j, c). (c, int j * (screen_w m div int (length (ws m ! nat (cur_ws m)))), 0,
                      screen_w m div int (length (ws m ! nat (cur_ws m))), screen_h m))
         (enumerate 0 (ws m ! nat (cur_ws m)))"
proof -
  let ?N = "int (length (ws m ! nat (cur_ws m)))"
  have pos: "0 < ?N" using assms(1) by simp
  have w: "0 \<le> screen_w m" "screen_w m < 2 ^ 31" "0 \<le> screen_h m" "screen_h m < 2 ^ 31"
    using assms(2) by (simp_all add: screen_ok_def)
  have "0 \<le> screen_w m div ?N"
    using w(1) pos by (simp add: pos_imp_zdiv_nonneg_iff)
  moreover have "screen_w m div ?N \<le> screen_w m"
    using zdiv_mono2 [of "screen_w m" 1 ?N] w(1) pos by simp
  ultimately have "c_uint (screen_w m div ?N) = screen_w m div ?N"
    using w(2) by (simp add: c_uint_id)
  moreover have "c_uint (screen_h m) = screen_h m"
    using w(3,4) by (rule c_uint_id)
  ultimately show ?thesis
    using assms(1) w(1)
    by (simp add: arrange_def Let_def XFlush_def rectangles_append arrange_loop_rectangles
        c_div_nonneg)
qed

lemma spans_equal_columns:
  "spans a (map (\<lambda>(j, c). (a + int j * w, w)) (enumerate 0 cs)) b \<longleftrightarrow>
     0 \<le> w \<and> b = a + int (length cs) * w \<or> cs = [] \<and> a = b"
proof (induction cs arbitrary: a)
  case Nil
  then show ?case by auto
next
  case (Cons c cs)
  have "map (\<lambda>(j, c). (a + int j * w, w)) (enumerate (Suc 0) cs) =
        map (\<lambda>(j, c). ((a + w) + int j * w, w)) (enumerate 0 cs)"
    by (simp add: enumerate_Suc_eq [of 0] split_def algebra_simps)
  then show ?case
    using Cons [of "a + w"] by (cases "cs = []") (auto simp: algebra_simps)
qed

lemma arrange_madawm_spans:
  assumes "ws m ! nat (cur_ws m) \<noteq> []" and "screen_ok m" and "requests (dpy m) = []"
  shows "spans 0 (columns_of 0 (rectangles (requests (dpy (arrange m))))) (screen_w m) \<longleftrightarrow>
         int (length (ws m ! nat (cur_ws m))) dvd screen_w m"
proof -
  let ?cs = "ws m ! nat (cur_ws m)"
  let ?base = "screen_w m div int (length ?cs)"
  have pos: "0 < int (length ?cs)" using assms(1) by simp
  have cols: "columns_of 0 (rectangles (requests (dpy (arrange m)))) =
        map (\<lambda>(j, c). (0 + int j * ?base, ?base)) (enumerate 0 ?cs)"
    using assms by (simp add: arrange_rectangles columns_of_def split_def)
  have base: "0 \<le> ?base"
    using assms(2) pos by (simp add: pos_imp_zdiv_nonneg_iff screen_ok_def)
  have "spans 0 (columns_of 0 (rectangles (requests (dpy (arrange m))))) (screen_w m) \<longleftrightarrow>
        screen_w m = int (length ?cs) * ?base"
    unfolding cols spans_equal_columns using assms(1) base by simp
  also have "\<dots> \<longleftrightarrow> int (length ?cs) dvd screen_w m"
    using pos by (metis dvd_mult_div_cancel dvd_triv_left)
  finally show ?thesis .
qed

lemma spans_spec_tail:
  assumes "0 \<le> W" and "i0 < N"
  shows "spans (int i0 * (W div int N))
           (map (\<lambda>i. (int i * (W div int N),
                if i = N - 1 then W - (W div int N) * (int N - 1) else W div int N)) [i0..<N]) W"
  using assms(2)
proof (induction "N - Suc i0" arbitrary: i0)
  case 0
  then have i0: "i0 = N - 1" and N: "0 < N" by auto
  have "W = int N * (W div int N) + W mod int N" by simp
  moreover have "0 \<le> W mod int N" using N by simp
  ultimately have "(W div int N) * int N \<le> W"
    by (smt (verit) mult.commute)
  moreover have "0 \<le> W div int N"
    using assms(1) N by (simp add: pos_imp_zdiv_nonneg_iff)
  ultimately have "(W div int N) * (int N - 1) \<le> W"
    by (smt (verit) mult_left_mono mult.commute)
  moreover have "[i0..<N] = [i0]"
    using i0 N by (simp add: upt_rec)
  moreover have "int i0 = int N - 1" using i0 N by (simp add: of_nat_diff)
  ultimately show ?case by (simp add: i0 mult.commute)
next
  case (Suc k)
  then have lt: "Suc i0 < N" and ne: "i0 \<noteq> N - 1" by auto
  have base: "0 \<le> W div int N"
    using assms(1) lt by (simp add: pos_imp_zdiv_nonneg_iff)
  have up: "[i0..<N] = i0 # [Suc i0..<N]"
    using lt by (simp add: upt_rec)
  have "k = N - Suc (Suc i0)" using Suc by simp
  from Suc(1) [OF this lt] base ne show ?case
    by (simp add: up algebra_simps)
qed

lemma spans_spec_columns: "0 < N \<Longrightarrow> 0 \<le> W \<Longrightarrow> spans 0 (spec_columns W N) W"
  using spans_spec_tail [of W 0 N] by (simp add: spec_columns_def)

lemma tile_loop_rectangles:
  "rectangles (requests (snd (tile_loop cs cur count tw sw sh i f X))) =
     rectangles (requests X) @
     map (\<lambda>(j, c). tile_rect count tw sw sh (i + int j) (win c))
       (enumerate 0 (filter (\<lambda>c. workspace c = cur) cs))"
proof (induction cs arbitrary: i f X)
  case Nil
  then show ?case by simp
next
  case (Cons c cs)
  let ?fs = "filter (\<lambda>c. workspace c = cur) cs"
  have shift: "map (\<lambda>(j, c). tile_rect count tw sw sh (i + 1 + int j) (win c)) (enumerate 0 ?fs) =
        map (\<lambda>(j, c). tile_rect count tw sw sh (i + int j) (win c)) (enumerate (Suc 0) ?fs)"
    by (simp add: enumerate_Suc_eq [of 0] split_def add_ac)
  show ?case
  proof (cases "workspace c = cur")
    case True
    have step: "rectangles (requests (XMapWindow (win c) (XMoveResizeWindow (win c) (i * tw) 0
          ((if i = count - 1 then sw - i * tw else tw) - 2 * BORDER_WIDTH)
          (sh - 2 * BORDER_WIDTH) X))) =
        rectangles (requests X) @ [tile_rect count tw sw sh i (win c)]"
      by (simp add: XMapWindow_def XMoveResizeWindow_def rectangles_append tile_rect_def Let_def)
    have "rectangles (requests (snd (tile_loop (c # cs) cur count tw sw sh i f X))) =
        (rectangles (requests X) @ [tile_rect count tw sw sh i (win c)]) @
        map (\<lambda>(j, c). tile_rect count tw sw sh (i + 1 + int j) (win c)) (enumerate 0 ?fs)"
      using True by (simp add: Let_def Cons step del: append_assoc)
    also have "\<dots> = rectangles (requests X) @
        map (\<lambda>(j, c). tile_rect count tw sw sh (i + int j) (win c))
          (enumerate 0 (filter (\<lambda>c. workspace c = cur) (c # cs)))"
      using True by (simp add: shift)
    finally show ?thesis .
  next
    case False
    then show ?thesis
      by (simp add: Cons XUnmapWindow_def rectangles_append)
  qed
qed

lemma unfocus_loop_rectangles:
  "rectangles (requests (unfocus_loop cs cur X)) = rectangles (requests X)"
  by (induction cs arbitrary: X) (simp_all add: xcall_defs rectangles_append)

lemma set_focus_rectangles:
  "rectangles (requests (dpy (set_focus w s))) = rectangles (requests (dpy s))"
  by (simp add: set_focus_def Let_def xcall_defs rectangles_append unfocus_loop_rectangles)

lemma enumerate_map_win:
  "map (\<lambda>(j, c). g j (win c)) (enumerate n cs) = map (\<lambda>(j, w). g j w) (enumerate n (map win cs))"
  by (induction cs arbitrary: n) simp_all

lemma arrange_readme_rectangles:
  assumes "members_of s (cur_ws s) \<noteq> []" and "0 \<le> screen_w s"
  shows "rectangles (requests (dpy (arrange_readme s))) =
     rectangles (requests (dpy s)) @
     map (\<lambda>(j, w). tile_rect (int (length (members_of s (cur_ws s))))
            (screen_w s div int (length (members_of s (cur_ws s)))) (screen_w s) (screen_h s)
            (int j) w)
       (enumerate 0 (members_of s (cur_ws s)))"
proof -
  let ?ms = "filter (\<lambda>c. workspace c = cur_ws s) (clients s)"
  let ?N = "int (length ?ms)"
  have ne: "?ms \<noteq> []" using assms(1) by (simp add: members_of_def)
  then have pos: "0 < ?N" by simp
  obtain f X where tl: "tile_loop (clients s) (cur_ws s) ?N (screen_w s div ?N) (screen_w s)
      (screen_h s) 0 None (dpy s) = (f, X)"
    by (cases "tile_loop (clients s) (cur_ws s) ?N (screen_w s div ?N) (screen_w s)
      (screen_h s) 0 None (dpy s)") auto
  have X: "rectangles (requests X) = rectangles (requests (dpy s)) @
     map (\<lambda>(j, c). tile_rect ?N (screen_w s div ?N) (screen_w s) (screen_h s) (int j) (win c))
       (enumerate 0 ?ms)"
    using tile_loop_rectangles [of "clients s" "cur_ws s" ?N "screen_w s div ?N" "screen_w s"
        "screen_h s" 0 None "dpy s"] tl by simp
  have "rectangles (requests (dpy (arrange_readme s))) = rectangles (requests X)"
    using pos tl assms(2)
    by (simp add: arrange_readme_def count_loop_length Let_def c_div_nonneg XSync_def
        rectangles_append set_focus_rectangles split: option.splits)
  also note X
  also have "map (\<lambda>(j, c). tile_rect ?N (screen_w s div ?N) (screen_w s) (screen_h s) (int j) (win c))
       (enumerate 0 ?ms) =
     map (\<lambda>(j, w). tile_rect ?N (screen_w s div ?N) (screen_w s) (screen_h s) (int j) w)
       (enumerate 0 (map win ?ms))"
    by (rule enumerate_map_win)
  finally show ?thesis by (simp add: members_of_def)
qed

text \<open>
  On a screen whose columns are at least as wide as the two borders, the columns of the
  README variant are those of the specification.
\<close>

lemma arrange_readme_columns:
  assumes "members_of s (cur_ws s) \<noteq> []" and "screen_ok s"
    and "2 * BORDER_WIDTH * int (length (members_of s (cur_ws s))) \<le> screen_w s"
    and "requests (dpy s) = []"
  shows "columns_of BORDER_WIDTH (rectangles (requests (dpy (arrange_readme s)))) =
           spec_columns (screen_w s) (length (members_of s (cur_ws s)))"
proof -
  let ?ms = "members_of s (cur_ws s)"
  let ?N = "int (length ?ms)"
  let ?base = "screen_w s div ?N"
  let ?col = "\<lambda>j. (int j * ?base,
            (if j = length ?ms - 1 then screen_w s - ?base * (?N - 1) else ?base))"
  have pos: "0 < length ?ms" using assms(1) by simp
  then have idx: "\<And>j. (int j = ?N - 1) = (j = length ?ms - 1)"
    by (cases "length ?ms") auto
  have W: "0 \<le> screen_w s" "screen_w s < 2 ^ 31"
    using assms(2) by (simp_all add: screen_ok_def)
  have "(2 * BORDER_WIDTH * ?N) div ?N \<le> ?base"
    using assms(3) pos by (intro zdiv_mono1) simp_all
  then have b4: "2 * BORDER_WIDTH \<le> ?base"
    using pos by simp
  have bW: "?base \<le> screen_w s"
    using zdiv_mono2 [of "screen_w s" 1 ?N] W(1) pos by simp
  have "screen_w s = ?N * ?base + screen_w s mod ?N" by simp
  moreover have "0 \<le> screen_w s mod ?N" using pos by simp
  ultimately have "?base * ?N \<le> screen_w s"
    by (smt (verit) mult.commute)
  then have last: "?base \<le> screen_w s - ?base * (?N - 1)"
    by (simp add: algebra_simps)
  have lastW: "screen_w s - ?base * (?N - 1) \<le> screen_w s"
    using b4 pos by (simp add: BORDER_WIDTH_def)
  have u1: "c_uint (?base - 2 * BORDER_WIDTH) + 2 * BORDER_WIDTH = ?base"
    using b4 bW W(2) by (simp add: c_uint_id BORDER_WIDTH_def)
  have u2: "c_uint (screen_w s - ?base * (?N - 1) - 2 * BORDER_WIDTH) + 2 * BORDER_WIDTH =
        screen_w s - ?base * (?N - 1)"
    using b4 last lastW W(2) by (simp add: c_uint_id BORDER_WIDTH_def)
  have col: "\<And>j w. (case tile_rect ?N ?base (screen_w s) (screen_h s) (int j) w of
            (w, x, y, wd, ht) \<Rightarrow> (x, wd + 2 * BORDER_WIDTH)) = ?col j"
  proof -
    fix j :: nat and w :: window
    show "(case tile_rect ?N ?base (screen_w s) (screen_h s) (int j) w of
            (w, x, y, wd, ht) \<Rightarrow> (x, wd + 2 * BORDER_WIDTH)) = ?col j"
    proof (cases "j = length ?ms - 1")
      case True
      then have "int j = ?N - 1" using idx by simp
      with True u2 show ?thesis
        by (simp add: tile_rect_def Let_def mult.commute)
    next
      case False
      then have "int j \<noteq> ?N - 1" using idx by simp
      with False u1 show ?thesis
        by (simp add: tile_rect_def Let_def)
    qed
  qed
  have "columns_of BORDER_WIDTH (rectangles (requests (dpy (arrange_readme s)))) =
     map (\<lambda>x. ?col (fst x)) (enumerate 0 ?ms)"
    using assms(1,4) W(1) by (auto simp: arrange_readme_rectangles columns_of_def col)
  also have "\<dots> = map ?col (map fst (enumerate 0 ?ms))"
    by (simp only: map_map comp_def)
  also have "\<dots> = spec_columns (screen_w s) (length ?ms)"
    by (simp only: map_fst_enumerate spec_columns_def add_0)
  finally show ?thesis .
qed

lemma arrange_readme_partition:
  assumes "members_of s (cur_ws s) \<noteq> []" and "screen_ok s"
    and "2 * BORDER_WIDTH * int (length (members_of s (cur_ws s))) \<le> screen_w s"
    and "requests (dpy s) = []"
  shows "spans 0 (columns_of BORDER_WIDTH (rectangles (requests (dpy (arrange_readme s))))) (screen_w s)"
  using assms by (simp add: arrange_readme_columns spans_spec_columns screen_ok_def)

lemma arrange_readme_empty:
  assumes "members_of s (cur_ws s) = []"
  shows "rectangles (requests (dpy (arrange_readme s))) = rectangles (requests (dpy s))"
  using assms
  by (simp add: arrange_readme_def members_of_def count_loop_length set_focus_rectangles)

lemma arrange_empty: "ws m ! nat (cur_ws m) = [] \<Longrightarrow> arrange m = m"
  by (simp add: arrange_def)

lemma arrange_readme_example:
  "rectangles (requests (dpy (arrange_readme ex_r3))) =
     [(1, 0, 0, 636, 1076), (2, 640, 0, 636, 1076), (3, 1280, 0, 637, 1076)]"
  by (simp add: eval_defs ex_r3_def)

text \<open>
  C1.  The claim holds of \<^verbatim>\<open>arrange\<close> in the README variant, on every screen whose
  columns are at least as wide as the two borders (\<open>arrange_readme_columns\<close>,
  \<open>arrange_readme_partition\<close>, \<open>arrange_readme_empty\<close>), but \<^verbatim>\<open>arrange\<close> of
  \<^verbatim>\<open>src/madawm.c\<close> gives every column, the last one too, the width \<open>floor (W / N)\<close>: on a
  screen 1921 wide with three clients the columns are 640, 640 and 640 wide, where the
  specification's are 640, 640 and 641, and they do not span the screen.
\<close>

theorem arrange_madawm_drops_remainder:
  "rectangles (requests (dpy (arrange ex_m3))) =
     [(1, 0, 0, 640, 1080), (2, 640, 0, 640, 1080), (3, 1280, 0, 640, 1080)] \<and>
   spec_columns 1921 3 = [(0, 640), (640, 640), (1280, 641)] \<and>
   \<not> spans 0 (columns_of 0 (rectangles (requests (dpy (arrange ex_m3))))) (screen_w ex_m3)"
  by (simp add: eval_madawm_defs spec_columns_def columns_of_def upt_rec)


section \<open>Unmap and destroy notifications\<close>

text \<open>
  What \<^verbatim>\<open>handle_destroy\<close> of \<^verbatim>\<open>src/madawm.c\<close> asks of the server: the tiling of the
  list of the current workspace as the handler leaves it.
\<close>

lemma handle_destroy_rectangles:
  assumes "screen_ok m" and "ws (handle_destroy w m) ! nat (cur_ws m) \<noteq> []"
  shows "rectangles (requests (dpy (handle_destroy w m))) =
     rectangles (requests (dpy m)) @
     map (\<lambda>(j, c). (c, int j * (screen_w m div int (length (ws (handle_destroy w m) ! nat (cur_ws m)))), 0,
                      screen_w m div int (length (ws (handle_destroy w m) ! nat (cur_ws m))), screen_h m))
         (enumerate 0 (ws (handle_destroy w m) ! nat (cur_ws m)))"
proof -
  let ?m1 = "remove_client_from_ws w (cur_ws m) m"
  have g: "cur_ws ?m1 = cur_ws m" "screen_w ?m1 = screen_w m" "screen_h ?m1 = screen_h m"
    "dpy ?m1 = dpy m" "screen_ok ?m1"
    using assms(1) by (simp_all add: remove_client_from_ws_def screen_ok_def)
  have e: "ws (handle_destroy w m) = ws ?m1"
    by (rule ws_handle_destroy)
  have ne: "ws ?m1 ! nat (cur_ws ?m1) \<noteq> []"
    using assms(2) by (simp add: e g)
  from arrange_rectangles [OF ne g(5)] show ?thesis
    by (simp add: handle_destroy_def g ws_arrange)
qed

text \<open>
  C4, as amended.  In the README variant a destroy notification, and an unmap
  notification with \<^verbatim>\<open>send_event\<close> set, unlinks the handle from the registry whichever
  workspace holds it, and re-runs \<^verbatim>\<open>arrange\<close>, which leaves the focus at the head of the
  current workspace (or on the root), never on the removed window; an unmap notification
  without \<^verbatim>\<open>send_event\<close> changes nothing.  \<^verbatim>\<open>src/madawm.c\<close> treats both notifications
  alike and re-tiles the current workspace, every client of its list getting an equal
  column; it has no focus manager, and the input focus stays where it was.
\<close>

theorem destroy_unmap_remove_and_refocus:
  "(distinct (map win (clients s)) \<and> None_X \<notin> win ` set (clients s) \<and> w \<noteq> root s \<longrightarrow>
      handle_destroy_readme w s = arrange_readme (remove_client w s) \<and>
      clients (handle_destroy_readme w s) = unlink_client w (clients s) \<and>
      w \<notin> win ` set (clients (handle_destroy_readme w s)) \<and>
      focus_at_head (handle_destroy_readme w s) \<and>
      input_focus (dpy (handle_destroy_readme w s)) \<noteq> w) \<and>
   handle_unmap_readme w True s = handle_destroy_readme w s \<and>
   handle_unmap_readme w False s = s \<and>
   handle_unmap w m = handle_destroy w m \<and>
   input_focus (dpy (handle_destroy w m)) = input_focus (dpy m) \<and>
   (screen_ok m \<and> ws (handle_destroy w m) ! nat (cur_ws m) \<noteq> [] \<longrightarrow>
      rectangles (requests (dpy (handle_destroy w m))) =
        rectangles (requests (dpy m)) @
        map (\<lambda>(j, c). (c, int j * (screen_w m div int (length (ws (handle_destroy w m) ! nat (cur_ws m)))), 0,
                         screen_w m div int (length (ws (handle_destroy w m) ! nat (cur_ws m))), screen_h m))
            (enumerate 0 (ws (handle_destroy w m) ! nat (cur_ws m))))"
proof -
  have a: "distinct (map win (clients s)) \<and> None_X \<notin> win ` set (clients s) \<and> w \<noteq> root s \<longrightarrow>
      handle_destroy_readme w s = arrange_readme (remove_client w s) \<and>
      clients (handle_destroy_readme w s) = unlink_client w (clients s) \<and>
      w \<notin> win ` set (clients (handle_destroy_readme w s)) \<and>
      focus_at_head (handle_destroy_readme w s) \<and>
      input_focus (dpy (handle_destroy_readme w s)) \<noteq> w"
  proof
    assume h: "distinct (map win (clients s)) \<and> None_X \<notin> win ` set (clients s) \<and> w \<noteq> root s"
    have gone: "w \<notin> win ` set (clients (handle_destroy_readme w s))"
      using h by (simp add: clients_handle_destroy_readme unlink_client_distinct)
    have fh: "focus_at_head (handle_destroy_readme w s)"
      using h by (simp add: focus_at_head_destroy)
    have rt: "root (handle_destroy_readme w s) = root s"
      by (simp add: handle_destroy_readme_def arrange_readme_globals remove_client_def)
    have "input_focus (dpy (handle_destroy_readme w s)) \<noteq> w"
      using focus_at_head_in_registry [OF fh] gone h rt by auto
    with gone fh show "handle_destroy_readme w s = arrange_readme (remove_client w s) \<and>
      clients (handle_destroy_readme w s) = unlink_client w (clients s) \<and>
      w \<notin> win ` set (clients (handle_destroy_readme w s)) \<and>
      focus_at_head (handle_destroy_readme w s) \<and>
      input_focus (dpy (handle_destroy_readme w s)) \<noteq> w"
      by (simp add: clients_handle_destroy_readme) (simp add: handle_destroy_readme_def)
  qed
  have b: "handle_unmap_readme w True s = handle_destroy_readme w s \<and> handle_unmap_readme w False s = s"
    by (simp add: handle_unmap_readme_def handle_destroy_readme_def)
  have c: "handle_unmap w m = handle_destroy w m"
    by (simp add: handle_unmap_def handle_destroy_def)
  have d: "input_focus (dpy (handle_destroy w m)) = input_focus (dpy m)"
    by (simp add: handle_destroy_def arrange_input_focus remove_client_from_ws_def)
  from a b c d handle_destroy_rectangles [of m w] show ?thesis by blast
qed

theorem destroy_unmap_remove_and_refocus_witness:
  "distinct (map win (clients ex_r)) \<and> None_X \<notin> win ` set (clients ex_r) \<and> 1 \<noteq> root ex_r \<and>
   clients (handle_destroy_readme 1 ex_r) = [] \<and>
   input_focus (dpy (handle_destroy_readme 1 ex_r)) \<noteq> 1 \<and>
   clients (handle_unmap_readme 1 True ex_r) = [] \<and>
   screen_ok ex_m3 \<and> ws (handle_destroy 1 ex_m3) ! nat (cur_ws ex_m3) = [2, 3] \<and>
   rectangles (requests (dpy (handle_destroy 1 ex_m3))) = [(2, 0, 0, 960, 1080), (3, 960, 0, 960, 1080)] \<and>
   input_focus (dpy (handle_destroy 1 ex_m3)) = 100"
proof -
  have h: "distinct (map win (clients ex_r)) \<and> None_X \<notin> win ` set (clients ex_r) \<and> 1 \<noteq> root ex_r"
    by (simp add: ex_r_def readme_init_def None_X_def)
  have m: "screen_ok ex_m3" "ws (handle_destroy 1 ex_m3) ! nat (cur_ws ex_m3) = [2, 3]"
    "input_focus (dpy ex_m3) = 100" "rectangles (requests (dpy ex_m3)) = []"
    "screen_w ex_m3 = 1921" "screen_h ex_m3 = 1080"
    by (simp_all add: screen_ok_def ws_handle_destroy remove_client_from_ws_def ex_m3_def
        madawm_init_def X_init_def)
  note t = destroy_unmap_remove_and_refocus [of ex_r 1 ex_m3]
  from t h have r1: "clients (handle_destroy_readme 1 ex_r) = unlink_client 1 (clients ex_r)"
    and r2: "input_focus (dpy (handle_destroy_readme 1 ex_r)) \<noteq> 1"
    and r3: "handle_unmap_readme 1 True ex_r = handle_destroy_readme 1 ex_r"
    by blast+
  from t have r5: "input_focus (dpy (handle_destroy 1 ex_m3)) = input_focus (dpy ex_m3)"
    by blast
  from t m(1,2) have r6: "rectangles (requests (dpy (handle_destroy 1 ex_m3))) =
        rectangles (requests (dpy ex_m3)) @
        map (\<lambda>(j, c). (c, int j * (screen_w ex_m3 div int (length (ws (handle_destroy 1 ex_m3) ! nat (cur_ws ex_m3)))), 0,
                         screen_w ex_m3 div int (length (ws (handle_destroy 1 ex_m3) ! nat (cur_ws ex_m3))), screen_h ex_m3))
            (enumerate 0 (ws (handle_destroy 1 ex_m3) ! nat (cur_ws ex_m3)))"
    by simp
  have e1: "unlink_client 1 (clients ex_r) = []"
    by (simp add: ex_r_def readme_init_def)
  have r7: "rectangles (requests (dpy (handle_destroy 1 ex_m3))) = [(2, 0, 0, 960, 1080), (3, 960, 0, 960, 1080)]"
    unfolding r6 m by simp
  from h m r1 r2 r3 r5 r7 e1 show ?thesis by simp
qed

text \<open>
  C4 as stated fails for an unmap notification that is not synthetic: the README variant
  ignores it and the window stays in the registry.
\<close>

theorem real_unmap_keeps_client_counterexample:
  "1 \<in> win ` set (clients (handle_event_readme (UnmapNotify 1 False) ex_r)) \<and>
   handle_event_readme (UnmapNotify 1 False) ex_r = ex_r"
  by (simp add: handle_unmap_readme_def ex_r_def readme_init_def)

section \<open>Map requests\<close>

lemma handle_maprequest_readme_duplicate:
  "find_client w (clients s) \<noteq> None \<Longrightarrow> handle_maprequest_readme w s = s"
  by (simp add: handle_maprequest_readme_def)

text \<open>
  C2.  The README variant ignores a map request for a registered window
  (\<open>handle_maprequest_readme_duplicate\<close>) and keeps the handles of its registry distinct
  over every run (\<open>distinct_run_readme\<close>).  \<^verbatim>\<open>handle_maprequest\<close> of \<^verbatim>\<open>src/madawm.c\<close> has
  no such check: a second map request for terminal 1 registers it twice on workspace 0,
  and after a switch to workspace 1 it registers it on both workspaces.
\<close>

theorem duplicate_maprequest_madawm:
  "(case run [MapRequest 1, MapRequest 1] madawm_init of Inl e \<Rightarrow> None | Inr s \<Rightarrow> Some (ws s)) =
     Some [[1, 1], [], []] \<and>
   (case run [MapRequest 1, KeyPress 64 XK_2, MapRequest 1] madawm_init of
      Inl e \<Rightarrow> None | Inr s \<Rightarrow> Some (ws s)) = Some [[1], [1], []]"
  by (simp add: eval_madawm_defs)


section \<open>The policy filter\<close>

lemma strcasecmp_zero_iff:
  "(0::nat) \<notin> of_char ` set a \<Longrightarrow> (0::nat) \<notin> of_char ` set b \<Longrightarrow>
   strcasecmp a b = 0 \<longleftrightarrow> map tolower a = map tolower b"
  by (induction a b rule: strcasecmp.induct) (auto simp: tolower_def)

lemma allowed_loop_both_present:
  "allowed_loop c (Some n) classes = Inr (\<exists>p \<in> set classes. strcasecmp c p = 0 \<or> strcasecmp n p = 0)"
  by (induction classes) auto

text \<open>
  With both strings present, as \<^verbatim>\<open>XGetClassHint\<close> of Xlib delivers them, \<^verbatim>\<open>allowed_window\<close>
  of \<^verbatim>\<open>src/madawm.c\<close> dereferences nothing absent and accepts a match of either string.
\<close>

lemma allowed_window_both_present:
  assumes "XGetClassHint (dpy m) w = Some \<lparr>res_name = Some n, res_class = Some c\<rparr>"
  shows "allowed_window w m =
           Inr (\<exists>p \<in> set allowed_classes. strcasecmp c p = 0 \<or> strcasecmp n p = 0)"
  using assms by (simp add: allowed_window_def allowed_loop_both_present)

lemma match_loop_name:
  "p \<in> set classes \<Longrightarrow> strcasecmp n p = 0 \<Longrightarrow> match_loop cls (Some n) classes"
  by (induction classes) auto

lemma match_loop_class:
  "p \<in> set classes \<Longrightarrow> strcasecmp c p = 0 \<Longrightarrow> match_loop (Some c) nm classes"
  by (induction classes) auto

lemma match_class_name_only:
  assumes "XGetClassHint (dpy s) w = Some \<lparr>res_name = Some n, res_class = None\<rparr>"
    and "p \<in> set classes" and "strcasecmp n p = 0"
  shows "match_class w classes s"
  using assms by (simp add: match_class_def match_loop_name)

lemma match_class_class_only:
  assumes "XGetClassHint (dpy s) w = Some \<lparr>res_name = None, res_class = Some c\<rparr>"
    and "p \<in> set classes" and "strcasecmp c p = 0"
  shows "match_class w classes s"
  using assms by (simp add: match_class_def match_loop_class)

lemma match_loop_iff:
  "match_loop cls nm classes \<longleftrightarrow>
     (\<exists>p \<in> set classes. (case cls of None \<Rightarrow> False | Some c \<Rightarrow> strcasecmp c p = 0) \<or>
                         (case nm of None \<Rightarrow> False | Some n \<Rightarrow> strcasecmp n p = 0))"
  by (induction classes) auto

text \<open>
  C5.  Both variants reject a window for which \<^verbatim>\<open>XGetClassHint\<close> fails, without looking
  at a string.  When the call succeeds with both strings, as Xlib delivers them (an unset
  class is the empty string), \<^verbatim>\<open>allowed_window\<close> of \<^verbatim>\<open>src/madawm.c\<close> dereferences nothing
  absent and accepts the window exactly if its class or its instance name matches an
  entry, so a match of the instance name alone succeeds.  \<^verbatim>\<open>match_class\<close> of the README
  variant compares each string that is present, whatever the other one is, and a match of
  the instance name succeeds also with a null class.
\<close>

theorem policy_filter_checks_both_hints:
  "(XGetClassHint (dpy m) w = None \<longrightarrow> allowed_window w m = Inr False) \<and>
   (XGetClassHint (dpy m) w = Some \<lparr>res_name = Some n, res_class = Some c\<rparr> \<longrightarrow>
      allowed_window w m =
        Inr (\<exists>p \<in> set allowed_classes. strcasecmp c p = 0 \<or> strcasecmp n p = 0)) \<and>
   (XGetClassHint (dpy m) w = Some \<lparr>res_name = Some n, res_class = Some c\<rparr> \<and>
    p \<in> set allowed_classes \<and> strcasecmp n p = 0 \<longrightarrow> allowed_window w m = Inr True) \<and>
   (XGetClassHint (dpy s) w = None \<longrightarrow> \<not> match_class w classes s) \<and>
   (XGetClassHint (dpy s) w = Some ch \<longrightarrow>
      match_class w classes s =
        (\<exists>q \<in> set classes. (case res_class ch of None \<Rightarrow> False | Some c' \<Rightarrow> strcasecmp c' q = 0) \<or>
                            (case res_name ch of None \<Rightarrow> False | Some n' \<Rightarrow> strcasecmp n' q = 0))) \<and>
   (XGetClassHint (dpy s) w = Some ch \<and> res_name ch = Some n \<and>
    p \<in> set classes \<and> strcasecmp n p = 0 \<longrightarrow> match_class w classes s)"
proof -
  have a: "XGetClassHint (dpy m) w = None \<longrightarrow> allowed_window w m = Inr False"
    by (simp add: allowed_window_def)
  have b: "XGetClassHint (dpy m) w = Some \<lparr>res_name = Some n, res_class = Some c\<rparr> \<longrightarrow>
      allowed_window w m =
        Inr (\<exists>p \<in> set allowed_classes. strcasecmp c p = 0 \<or> strcasecmp n p = 0)"
    by (simp add: allowed_window_def allowed_loop_both_present)
  have c: "XGetClassHint (dpy m) w = Some \<lparr>res_name = Some n, res_class = Some c\<rparr> \<and>
    p \<in> set allowed_classes \<and> strcasecmp n p = 0 \<longrightarrow> allowed_window w m = Inr True"
    using b by auto
  have d: "XGetClassHint (dpy s) w = None \<longrightarrow> \<not> match_class w classes s"
    by (simp add: match_class_def)
  have e: "XGetClassHint (dpy s) w = Some ch \<longrightarrow>
      match_class w classes s =
        (\<exists>q \<in> set classes. (case res_class ch of None \<Rightarrow> False | Some c' \<Rightarrow> strcasecmp c' q = 0) \<or>
                            (case res_name ch of None \<Rightarrow> False | Some n' \<Rightarrow> strcasecmp n' q = 0))"
    by (auto simp: match_class_def match_loop_iff split: option.splits)
  have f: "XGetClassHint (dpy s) w = Some ch \<and> res_name ch = Some n \<and>
    p \<in> set classes \<and> strcasecmp n p = 0 \<longrightarrow> match_class w classes s"
    using e by auto
  from a b c d e f show ?thesis by blast
qed

theorem policy_filter_checks_both_hints_witness:
  "XGetClassHint (dpy madawm_init) 9 = None \<and> allowed_window 9 madawm_init = Inr False \<and>
   XGetClassHint (dpy madawm_init) 8 = Some \<lparr>res_name = Some ''kitty'', res_class = Some []\<rparr> \<and>
   ''kitty'' \<in> set allowed_classes \<and> strcasecmp ''kitty'' ''kitty'' = 0 \<and>
   allowed_window 8 madawm_init = Inr True \<and>
   XGetClassHint (dpy readme_init) 9 = None \<and> \<not> match_class 9 terminal_classes readme_init \<and>
   ''kitty'' \<in> set terminal_classes \<and>
   match_class 8 terminal_classes readme_init \<and> match_class 5 terminal_classes readme_init"
proof -
  have h: "XGetClassHint (dpy madawm_init) 9 = None"
    "XGetClassHint (dpy madawm_init) 8 = Some \<lparr>res_name = Some ''kitty'', res_class = Some []\<rparr>"
    "XGetClassHint (dpy readme_init) 9 = None"
    "XGetClassHint (dpy readme_init) 8 = Some \<lparr>res_name = Some ''kitty'', res_class = Some []\<rparr>"
    "XGetClassHint (dpy readme_init) 5 = Some \<lparr>res_name = Some ''kitty'', res_class = None\<rparr>"
    by (simp_all add: XGetClassHint_def madawm_init_def readme_init_def X_init_def)
  have k: "''kitty'' \<in> set allowed_classes" "''kitty'' \<in> set terminal_classes"
    "strcasecmp ''kitty'' ''kitty'' = 0"
    by (simp_all add: allowed_classes_def terminal_classes_def tolower_def)
  note t9 = policy_filter_checks_both_hints [of madawm_init 9 "''kitty''" "[]" "''kitty''" readme_init
      terminal_classes "\<lparr>res_name = Some ''kitty'', res_class = Some []\<rparr>"]
  note t8 = policy_filter_checks_both_hints [of madawm_init 8 "''kitty''" "[]" "''kitty''" readme_init
      terminal_classes "\<lparr>res_name = Some ''kitty'', res_class = Some []\<rparr>"]
  note t5 = policy_filter_checks_both_hints [of madawm_init 5 "''kitty''" "[]" "''kitty''" readme_init
      terminal_classes "\<lparr>res_name = Some ''kitty'', res_class = None\<rparr>"]
  from t9 h have p9: "allowed_window 9 madawm_init = Inr False"
    "\<not> match_class 9 terminal_classes readme_init" by blast+
  from t8 h k have p8: "allowed_window 8 madawm_init = Inr True"
    "match_class 8 terminal_classes readme_init" by (blast, force)
  from t5 h k have p5: "match_class 5 terminal_classes readme_init" by force
  from h k p9 p8 p5 show ?thesis by simp
qed

text \<open>
  Outside of what Xlib delivers: on a hint with a null string, \<^verbatim>\<open>allowed_window\<close> of
  \<^verbatim>\<open>src/madawm.c\<close> skips the loop when the class is null (window 5) and passes a null
  instance name to \<^verbatim>\<open>strcasecmp\<close> when the class matches no entry (window 6); the
  README variant tests each pointer.
\<close>

lemma allowed_window_null_strings:
  "allowed_window 5 madawm_init = Inr False \<and>
   allowed_window 6 madawm_init = Inl NullDereference \<and>
   get_window_workspace 5 readme_init = 0 \<and>
   get_window_workspace 6 readme_init = - 1"
  by (simp add: eval_madawm_defs XGetClassHint_def get_window_workspace_def match_class_def
      readme_init_def terminal_classes_def browser_classes_def)

section \<open>Focus cycling\<close>

text \<open>
  The README variant: with distinct handles on the current workspace and the focus on its
  \<open>i\<close>-th client, \<^verbatim>\<open>focus_next\<close> moves the focus to the client after it, and from the last
  client to the first.  Starting at the first client, the calls number 1 to \<open>K\<close> visit the
  clients in the order of the list rotated by one: every client once, the first one last.
\<close>

lemma focus_next_loop_found:
  "snd (focus_next_loop fw k cs (Some x) first) =
     (case filter (\<lambda>c. workspace c = k) cs of [] \<Rightarrow> None | c # _ \<Rightarrow> Some c)"
  by (induction cs arbitrary: first) (simp_all add: Let_def)

lemma focus_next_loop_snd:
  "snd (focus_next_loop fw k cs None first) =
     (case dropWhile (\<lambda>c. win c \<noteq> fw) (filter (\<lambda>c. workspace c = k) cs) of
        [] \<Rightarrow> None
      | c # rest \<Rightarrow> (case rest of [] \<Rightarrow> None | n # _ \<Rightarrow> Some n))"
  by (induction cs arbitrary: first) (simp_all add: Let_def focus_next_loop_found)

lemma focus_next_loop_fst:
  "fst (focus_next_loop fw k cs cur first) =
     (case first of
        Some f \<Rightarrow> Some f
      | None \<Rightarrow> (case filter (\<lambda>c. workspace c = k) cs of [] \<Rightarrow> None | c # _ \<Rightarrow> Some c))"
  by (induction cs arbitrary: cur first) (auto simp: Let_def split: option.splits)

lemma dropWhile_distinct_nth:
  "distinct (map f ms) \<Longrightarrow> i < length ms \<Longrightarrow> dropWhile (\<lambda>c. f c \<noteq> f (ms ! i)) ms = drop i ms"
proof (induction ms arbitrary: i)
  case Nil
  then show ?case by simp
next
  case (Cons m ms)
  show ?case
  proof (cases i)
    case 0
    then show ?thesis by simp
  next
    case (Suc j)
    with Cons.prems have "j < length ms" and "f (ms ! j) \<in> f ` set ms" by auto
    with Cons.prems have "f m \<noteq> f (ms ! j)" by auto
    with Cons Suc show ?thesis by simp
  qed
qed

text \<open>The window that \<^verbatim>\<open>focus_next\<close> passes to \<^verbatim>\<open>set_focus\<close>.\<close>

lemma focus_next_readme_target:
  assumes "distinct (members_of s (cur_ws s))" and "i < length (members_of s (cur_ws s))"
    and "input_focus (dpy s) = members_of s (cur_ws s) ! i"
  shows "focus_next_readme s =
           set_focus (members_of s (cur_ws s) ! (Suc i mod length (members_of s (cur_ws s)))) s"
proof -
  let ?ms = "filter (\<lambda>c. workspace c = cur_ws s) (clients s)"
  let ?K = "length ?ms"
  have d: "distinct (map win ?ms)" and i: "i < ?K" and f: "input_focus (dpy s) = win (?ms ! i)"
    using assms by (simp_all add: members_of_def)
  have dw: "dropWhile (\<lambda>c. win c \<noteq> input_focus (dpy s)) ?ms = drop i ?ms"
    unfolding f using d i by (rule dropWhile_distinct_nth)
  obtain fi nx where lp: "focus_next_loop (input_focus (dpy s)) (cur_ws s) (clients s) None None = (fi, nx)"
    by (cases "focus_next_loop (input_focus (dpy s)) (cur_ws s) (clients s) None None") auto
  have fi: "fi = Some (?ms ! 0)"
    using focus_next_loop_fst [of "input_focus (dpy s)" "cur_ws s" "clients s" None None] lp i
    by (cases ?ms) auto
  have nx: "nx = (if Suc i < ?K then Some (?ms ! Suc i) else None)"
  proof -
    have "drop i ?ms = ?ms ! i # drop (Suc i) ?ms"
      using i by (simp add: Cons_nth_drop_Suc)
    moreover have "Suc i < ?K \<Longrightarrow> drop (Suc i) ?ms = ?ms ! Suc i # drop (Suc (Suc i)) ?ms"
      by (simp add: Cons_nth_drop_Suc)
    moreover have "\<not> Suc i < ?K \<Longrightarrow> drop (Suc i) ?ms = []"
      by simp
    ultimately show ?thesis
      using focus_next_loop_snd [of "input_focus (dpy s)" "cur_ws s" "clients s" None] lp dw
      by (cases "Suc i < ?K") simp_all
  qed
  have md: "Suc i mod ?K = (if Suc i < ?K then Suc i else 0)"
  proof (cases "Suc i < ?K")
    case True
    then show ?thesis by simp
  next
    case False
    with i have "Suc i = ?K" by simp
    with False show ?thesis by (metis mod_self)
  qed
  have nth: "\<And>j. j < ?K \<Longrightarrow> members_of s (cur_ws s) ! j = win (?ms ! j)"
    by (simp add: members_of_def)
  have pos: "0 < ?K" using i by auto
  show ?thesis
    using lp fi nx i pos
    by (simp add: focus_next_readme_def XGetInputFocus_def Let_def md nth members_of_def)
qed

lemma focus_next_readme_step:
  assumes "distinct (members_of s (cur_ws s))" and "None_X \<notin> set (members_of s (cur_ws s))"
    and "i < length (members_of s (cur_ws s))"
    and "input_focus (dpy s) = members_of s (cur_ws s) ! i"
  shows "input_focus (dpy (focus_next_readme s)) =
           members_of s (cur_ws s) ! (Suc i mod length (members_of s (cur_ws s)))"
    and "members_of (focus_next_readme s) (cur_ws (focus_next_readme s)) = members_of s (cur_ws s)"
proof -
  let ?ms = "members_of s (cur_ws s)"
  have "0 < length ?ms" using assms(3) by auto
  then have "Suc i mod length ?ms < length ?ms" by simp
  then have "?ms ! (Suc i mod length ?ms) \<in> set ?ms" by (rule nth_mem)
  with assms(2) have "?ms ! (Suc i mod length ?ms) \<noteq> None_X" by auto
  then show "input_focus (dpy (focus_next_readme s)) = ?ms ! (Suc i mod length ?ms)"
    by (simp add: focus_next_readme_target [OF assms(1,3,4)] set_focus_input_focus)
  show "members_of (focus_next_readme s) (cur_ws (focus_next_readme s)) = ?ms"
    by (simp add: focus_next_readme_target [OF assms(1,3,4)] members_of_def set_focus_globals)
qed

lemma focus_next_readme_iterate:
  assumes "distinct (members_of s (cur_ws s))" and "None_X \<notin> set (members_of s (cur_ws s))"
    and "members_of s (cur_ws s) \<noteq> []"
    and "input_focus (dpy s) = members_of s (cur_ws s) ! 0"
  shows "input_focus (dpy ((focus_next_readme ^^ j) s)) =
           members_of s (cur_ws s) ! (j mod length (members_of s (cur_ws s))) \<and>
         members_of ((focus_next_readme ^^ j) s) (cur_ws ((focus_next_readme ^^ j) s)) =
           members_of s (cur_ws s)"
proof (induction j)
  case 0
  with assms show ?case by simp
next
  case (Suc j)
  let ?ms = "members_of s (cur_ws s)"
  let ?t = "(focus_next_readme ^^ j) s"
  have lt: "j mod length ?ms < length ?ms" using assms(3) by simp
  from Suc have ms: "members_of ?t (cur_ws ?t) = ?ms"
    and fo: "input_focus (dpy ?t) = members_of ?t (cur_ws ?t) ! (j mod length ?ms)" by simp_all
  have a: "distinct (members_of ?t (cur_ws ?t))" "None_X \<notin> set (members_of ?t (cur_ws ?t))"
    "j mod length ?ms < length (members_of ?t (cur_ws ?t))"
    using assms lt by (simp_all add: ms)
  from focus_next_readme_step [OF a fo] show ?case
    by (simp add: ms mod_Suc_eq)
qed

lemma focus_next_readme_cycle:
  assumes "distinct (members_of s (cur_ws s))" and "None_X \<notin> set (members_of s (cur_ws s))"
    and "members_of s (cur_ws s) \<noteq> []"
    and "input_focus (dpy s) = members_of s (cur_ws s) ! 0"
  shows "map (\<lambda>j. input_focus (dpy ((focus_next_readme ^^ j) s)))
           [1..<Suc (length (members_of s (cur_ws s)))] = rotate1 (members_of s (cur_ws s))"
proof (rule nth_equalityI)
  let ?ms = "members_of s (cur_ws s)"
  show "length (map (\<lambda>j. input_focus (dpy ((focus_next_readme ^^ j) s))) [1..<Suc (length ?ms)]) =
        length (rotate1 ?ms)"
    by (simp del: upt_Suc)
next
  let ?ms = "members_of s (cur_ws s)"
  fix n
  assume "n < length (map (\<lambda>j. input_focus (dpy ((focus_next_readme ^^ j) s))) [1..<Suc (length ?ms)])"
  then have n: "n < length ?ms" by (simp del: upt_Suc)
  have "map (\<lambda>j. input_focus (dpy ((focus_next_readme ^^ j) s))) [1..<Suc (length ?ms)] ! n =
        input_focus (dpy ((focus_next_readme ^^ Suc n) s))"
    using n by (simp del: funpow.simps upt_Suc)
  also have "\<dots> = ?ms ! (Suc n mod length ?ms)"
    using focus_next_readme_iterate [OF assms, of "Suc n"] by simp
  also have "\<dots> = rotate1 ?ms ! n"
    using n by (simp add: nth_rotate1)
  finally show "map (\<lambda>j. input_focus (dpy ((focus_next_readme ^^ j) s))) [1..<Suc (length ?ms)] ! n =
        rotate1 ?ms ! n" .
qed

lemma focus_next_readme_example:
  "map (\<lambda>j. input_focus (dpy ((focus_next_readme ^^ j) (arrange_readme ex_r3)))) [1, 2, 3] = [2, 3, 1]"
  by (simp add: eval_defs ex_r3_def numeral_3_eq_3 numeral_2_eq_2)

text \<open>
  C6.  \<^verbatim>\<open>focus_next\<close> of \<^verbatim>\<open>src/madawm.c\<close> never moves on: with clients 1, 2, 3 on
  the current workspace, after one, two and three calls the order is still 1, 2, 3,
  window 1 keeps the first column, and the input focus is never set.
\<close>

theorem focus_next_madawm_keeps_head:
  "map (\<lambda>j. ws ((focus_next ^^ j) ex_m3) ! 0) [1, 2, 3] = [[1, 2, 3], [1, 2, 3], [1, 2, 3]] \<and>
   rectangles (requests (dpy (focus_next ex_m3))) =
     [(1, 0, 0, 640, 1080), (2, 640, 0, 640, 1080), (3, 1280, 0, 640, 1080)] \<and>
   input_focus (dpy ((focus_next ^^ 3) ex_m3)) = input_focus (dpy ex_m3)"
  by (simp add: eval_madawm_defs numeral_3_eq_3 numeral_2_eq_2)


section \<open>Workspace switches\<close>

lemma change_ws_out_of_range: "idx < 0 \<or> WORKSPACES \<le> idx \<Longrightarrow> change_ws idx m = m"
  by (auto simp: change_ws_def)
text \<open>
  C7.  \<^verbatim>\<open>change_ws\<close> of the README variant returns at once when the target is the
  current workspace or out of range (\<open>change_ws_readme_noop\<close>), and \<^verbatim>\<open>change_ws\<close> of
  \<^verbatim>\<open>src/madawm.c\<close> when the target is out of range (\<open>change_ws_out_of_range\<close>).  But
  \<^verbatim>\<open>src/madawm.c\<close> does not compare the target with the current workspace: switching
  to workspace 0 from workspace 0 unmaps, moves and maps again every client, and a
  registered window that was not mapped is mapped.
\<close>

theorem change_ws_current_madawm:
  "requests (dpy (change_ws 0 ex_m)) =
     [UnmapWindow 1, MoveResizeWindow 1 0 0 1921 1080, MapRaised 1, Flush] \<and>
   mapped (dpy ex_m) = {} \<and> mapped (dpy (change_ws 0 ex_m)) = {1} \<and>
   change_ws 0 ex_m \<noteq> ex_m"
proof -
  have r: "requests (dpy (change_ws 0 ex_m)) =
     [UnmapWindow 1, MoveResizeWindow 1 0 0 1921 1080, MapRaised 1, Flush]"
    by (simp add: eval_madawm_defs)
  have m: "mapped (dpy ex_m) = {}" "mapped (dpy (change_ws 0 ex_m)) = {1}"
    by (simp_all add: eval_madawm_defs)
  from m have "change_ws 0 ex_m \<noteq> ex_m" by auto
  with r m show ?thesis by simp
qed


end
